theory Spec2Isabelle
  imports Main "HOL-Library.Word" "HOL-Library.AList"
begin

section \<open>The two runtimes as seen from \<^verbatim>\<open>device_window.cuh\<close>\<close>

text \<open>
  \<^verbatim>\<open>device_window.cuh\<close> drives two external runtimes, OpenGL and the CUDA graphics
  interop API.  Both are modelled as one explicit state, the record \<open>runtime\<close>, that every
  call takes and returns.  Buffer object names (\<^verbatim>\<open>GLuint\<close>) and registration handles
  (\<^verbatim>\<open>cudaGraphicsResource*\<close>) are opaque identifiers, modelled as natural numbers with
  \<open>0\<close> for "no buffer" and for \<^verbatim>\<open>NULL\<close>.  The dimensions are C \<^verbatim>\<open>unsigned\<close>, that is
  32-bit words, so that \<^verbatim>\<open>3*Nx*Ny\<close> wraps as it does in the source.

  Every call of the external API appends an event to \<open>trace\<close>, with the outcome the
  runtime reported; the source ignores almost all of these outcomes, the trace keeps them.
\<close>

type_synonym GLuint = nat
type_synonym handle = nat
type_synonym unsigned = "32 word"

abbreviation NULL :: handle where
  "NULL \<equiv> 0"

text \<open>
  Modelled from the spec: \<^verbatim>\<open>dg::Color\<close> is declared in \<^verbatim>\<open>colormap.cuh\<close>, which is not part
  of the sources at hand; the spec calls it a 3-component colour \<open>(r,g,b)\<close>, and the buffer
  holds \<^verbatim>\<open>float\<close>s.  The component type stays a parameter \<open>'f\<close>: the code only moves
  components, it never computes with them.  The colour map
  (\<^verbatim>\<open>dg::ColorMapRedBlueExt\<close>, also from \<^verbatim>\<open>colormap.cuh\<close>) is a parameter \<open>f\<close> of type
  \<open>'t \<Rightarrow> 'f Color\<close> wherever the source takes \<^verbatim>\<open>map\<close>.
\<close>

datatype 'f Color = Color (red: 'f) (green: 'f) (blue: 'f)

datatype event =
    GlfwOpenWindow int int
  | CudaUnregister handle bool
  | StdCout string
  | StdCoutCudaErrorString
  | GlGetBinding GLuint
  | GlDeleteBuffers GLuint
  | GlGenBuffers GLuint
  | GlBindBuffer GLuint
  | GlBufferData nat bool
  | CudaRegister GLuint handle
  | CudaMap handle bool
  | CudaGetMappedPointer handle bool
  | DeviceWrite GLuint nat
  | CudaThreadSynchronize
  | CudaUnmap handle bool
  | GlTexImage2D unsigned unsigned
  | GlQuad
  | GlfwSwapBuffers
  | GlfwTerminate

text \<open>
  What C++ leaves undefined is a fault of the model: the run stops there, and the fault
  carries the state reached.  \<open>AssertionFailed\<close> is the \<^verbatim>\<open>assert\<close> of a \<^verbatim>\<open>DG_DEBUG\<close> build.
\<close>

datatype error = AssertionFailed | IndeterminateRead | WildWrite | OutOfBoundsWrite

text \<open>
  A buffer object's data store is a list of \<^verbatim>\<open>float\<close> cells, \<open>None\<close> where nothing was
  written yet; its size in bytes is four times the length.  \<open>gl_names\<close>, \<open>gl_data_ok\<close>,
  \<open>cuda_register_ok\<close> and \<open>cuda_ptrs\<close> are what the runtimes will answer, in order: the
  names \<^verbatim>\<open>glGenBuffers\<close> proposes, whether \<^verbatim>\<open>glBufferData\<close> gets its memory, whether
  \<^verbatim>\<open>cudaGraphicsGLRegisterBuffer\<close> succeeds, the pointers it proposes.  An exhausted
  list means success, and the least name above all names in use.
\<close>

record 'f runtime =
  gl_buffers :: "(GLuint \<times> 'f option list) list"
  gl_unpack_binding :: GLuint
  cuda_resources :: "(handle \<times> (GLuint \<times> bool)) list"
  gl_names :: "GLuint list"
  gl_data_ok :: "bool list"
  cuda_register_ok :: "bool list"
  cuda_ptrs :: "handle list"
  trace :: "event list"

definition log :: "event \<Rightarrow> 'f runtime \<Rightarrow> 'f runtime" where
  "log e rt = rt\<lparr>trace := trace rt @ [e]\<rparr>"

fun next_ok :: "bool list \<Rightarrow> bool" where
  "next_ok [] = True"
| "next_ok (b # bs) = b"

text \<open>A runtime hands out a name that is not in use and is not \<open>0\<close>; which one is its choice.\<close>

fun pick_fresh :: "nat list \<Rightarrow> nat list \<Rightarrow> nat \<times> nat list" where
  "pick_fresh [] used = (Suc (fold max used 0), [])"
| "pick_fresh (n # ns) used =
     (if n \<noteq> 0 \<and> n \<notin> set used then (n, ns) else pick_fresh ns used)"

definition lookup_resource :: "'f runtime \<Rightarrow> handle \<Rightarrow> (GLuint \<times> bool) option" where
  "lookup_resource rt h = (if h = NULL then None else map_of (cuda_resources rt) h)"

definition lookup_buffer :: "'f runtime \<Rightarrow> GLuint \<Rightarrow> 'f option list option" where
  "lookup_buffer rt b = (if b = 0 then None else map_of (gl_buffers rt) b)"

subsection \<open>The external calls\<close>

text \<open>
  \<^verbatim>\<open>cudaGraphicsUnregisterResource\<close>: an error on a handle that is not registered
  (\<^verbatim>\<open>NULL\<close> included); a mapped resource is unmapped by its unregistration.
\<close>

definition cudaGraphicsUnregisterResource :: "handle \<Rightarrow> 'f runtime \<Rightarrow> 'f runtime" where
  "cudaGraphicsUnregisterResource h rt =
     (case lookup_resource rt h of
        None \<Rightarrow> log (CudaUnregister h False) rt
      | Some _ \<Rightarrow>
          log (CudaUnregister h True)
            (rt\<lparr>cuda_resources := AList.delete h (cuda_resources rt)\<rparr>))"

text \<open>\<^verbatim>\<open>glGetIntegerv( GL_PIXEL_UNPACK_BUFFER_BINDING, &id)\<close>.\<close>

definition glGetIntegerv :: "'f runtime \<Rightarrow> GLuint \<times> 'f runtime" where
  "glGetIntegerv rt = (gl_unpack_binding rt, log (GlGetBinding (gl_unpack_binding rt)) rt)"

text \<open>
  \<^verbatim>\<open>glDeleteBuffers( 1, &b)\<close>: \<open>0\<close> and names of no buffer are silently ignored; a bound
  buffer that is deleted leaves the binding at \<open>0\<close>.
\<close>

definition glDeleteBuffers :: "GLuint \<Rightarrow> 'f runtime \<Rightarrow> 'f runtime" where
  "glDeleteBuffers b rt =
     log (GlDeleteBuffers b)
       (case lookup_buffer rt b of
          None \<Rightarrow> rt
        | Some _ \<Rightarrow>
            rt\<lparr>gl_buffers := AList.delete b (gl_buffers rt),
               gl_unpack_binding := (if gl_unpack_binding rt = b then 0 else gl_unpack_binding rt)\<rparr>)"

definition glGenBuffers :: "'f runtime \<Rightarrow> GLuint \<times> 'f runtime" where
  "glGenBuffers rt =
     (let (b, rest) = pick_fresh (gl_names rt) (map fst (gl_buffers rt))
      in (b, log (GlGenBuffers b) (rt\<lparr>gl_names := rest\<rparr>)))"

text \<open>\<^verbatim>\<open>glBindBuffer( GL_PIXEL_UNPACK_BUFFER, b)\<close>: the first binding of a name creates the
  buffer object, with an empty data store.\<close>

definition glBindBuffer :: "GLuint \<Rightarrow> 'f runtime \<Rightarrow> 'f runtime" where
  "glBindBuffer b rt =
     log (GlBindBuffer b)
       (rt\<lparr>gl_unpack_binding := b,
           gl_buffers := (if b = 0 \<or> map_of (gl_buffers rt) b \<noteq> None then gl_buffers rt
                          else AList.update b [] (gl_buffers rt))\<rparr>)"

text \<open>
  \<^verbatim>\<open>glBufferData( GL_PIXEL_UNPACK_BUFFER, nbytes, NULL, GL_DYNAMIC_DRAW)\<close>: a new data
  store of \<open>nbytes\<close> bytes with undefined contents for the bound buffer, or an error flag
  (\<^verbatim>\<open>GL_OUT_OF_MEMORY\<close>; \<^verbatim>\<open>GL_INVALID_OPERATION\<close> with nothing bound) that nobody reads.
\<close>

definition glBufferData :: "nat \<Rightarrow> 'f runtime \<Rightarrow> 'f runtime" where
  "glBufferData nbytes rt =
     (let ok = (next_ok (gl_data_ok rt) \<and> gl_unpack_binding rt \<noteq> 0);
          rt1 = rt\<lparr>gl_data_ok := tl (gl_data_ok rt)\<rparr>
      in log (GlBufferData nbytes ok)
           (if ok
            then rt1\<lparr>gl_buffers :=
                       AList.update (gl_unpack_binding rt) (replicate (nbytes div 4) None)
                         (gl_buffers rt)\<rparr>
            else rt1))"

text \<open>
  \<^verbatim>\<open>cudaGraphicsGLRegisterBuffer( &resource, b, cudaGraphicsRegisterFlagsWriteDiscard)\<close>:
  \<open>None\<close> is an error code other than \<^verbatim>\<open>cudaSuccess\<close> (the out parameter is then not
  written), \<open>Some h\<close> the new registration.
\<close>

definition cudaGraphicsGLRegisterBuffer :: "GLuint \<Rightarrow> 'f runtime \<Rightarrow> handle option \<times> 'f runtime" where
  "cudaGraphicsGLRegisterBuffer b rt =
     (let ok = next_ok (cuda_register_ok rt);
          rt1 = rt\<lparr>cuda_register_ok := tl (cuda_register_ok rt)\<rparr>
      in if ok
         then (let (h, rest) = pick_fresh (cuda_ptrs rt) (map fst (cuda_resources rt))
               in (Some h,
                   log (CudaRegister b h)
                     (rt1\<lparr>cuda_ptrs := rest,
                          cuda_resources := AList.update h (b, False) (cuda_resources rt)\<rparr>)))
         else (None, log (CudaRegister b NULL) rt1))"

text \<open>
  \<^verbatim>\<open>cudaGraphicsMapResources( 1, &resource, 0)\<close>: an error on a handle that is not
  registered, on a resource that is mapped already, and on one whose buffer is gone.
\<close>

definition cudaGraphicsMapResources :: "handle \<Rightarrow> 'f runtime \<Rightarrow> 'f runtime" where
  "cudaGraphicsMapResources h rt =
     (case lookup_resource rt h of
        None \<Rightarrow> log (CudaMap h False) rt
      | Some (b, m) \<Rightarrow>
          if \<not> m \<and> lookup_buffer rt b \<noteq> None
          then log (CudaMap h True)
                 (rt\<lparr>cuda_resources := AList.update h (b, True) (cuda_resources rt)\<rparr>)
          else log (CudaMap h False) rt)"

text \<open>
  \<^verbatim>\<open>cudaGraphicsResourceGetMappedPointer( (void**)&d_buffer, &size, resource)\<close>: for a
  mapped resource the buffer and its size in bytes; otherwise an error, and \<^verbatim>\<open>d_buffer\<close>
  and \<^verbatim>\<open>size\<close> stay the uninitialised locals they were (\<open>None\<close>).
\<close>

definition cudaGraphicsResourceGetMappedPointer ::
  "handle \<Rightarrow> 'f runtime \<Rightarrow> (GLuint \<times> nat) option \<times> 'f runtime" where
  "cudaGraphicsResourceGetMappedPointer h rt =
     (case lookup_resource rt h of
        None \<Rightarrow> (None, log (CudaGetMappedPointer h False) rt)
      | Some (b, m) \<Rightarrow>
          (case lookup_buffer rt b of
             None \<Rightarrow> (None, log (CudaGetMappedPointer h False) rt)
           | Some fs \<Rightarrow>
               if m then (Some (b, 4 * length fs), log (CudaGetMappedPointer h True) rt)
               else (None, log (CudaGetMappedPointer h False) rt)))"

definition cudaThreadSynchronize :: "'f runtime \<Rightarrow> 'f runtime" where
  "cudaThreadSynchronize rt = log CudaThreadSynchronize rt"

definition cudaGraphicsUnmapResources :: "handle \<Rightarrow> 'f runtime \<Rightarrow> 'f runtime" where
  "cudaGraphicsUnmapResources h rt =
     (case lookup_resource rt h of
        None \<Rightarrow> log (CudaUnmap h False) rt
      | Some (b, m) \<Rightarrow>
          if m
          then log (CudaUnmap h True)
                 (rt\<lparr>cuda_resources := AList.update h (b, False) (cuda_resources rt)\<rparr>)
          else log (CudaUnmap h False) rt)"

text \<open>One \<^verbatim>\<open>dg::Color\<close> stored at \<^verbatim>\<open>d_buffer[i]\<close>: three consecutive floats.\<close>

definition device_write :: "GLuint \<Rightarrow> nat \<Rightarrow> 'f Color \<Rightarrow> 'f runtime \<Rightarrow> 'f runtime" where
  "device_write b i c rt =
     (case lookup_buffer rt b of
        None \<Rightarrow> rt
      | Some fs \<Rightarrow>
          log (DeviceWrite b i)
            (rt\<lparr>gl_buffers :=
                 AList.update b
                   (fs[3 * i := Some (red c), 3 * i + 1 := Some (green c),
                       3 * i + 2 := Some (blue c)])
                   (gl_buffers rt)\<rparr>))"

text \<open>
  \<^verbatim>\<open>thrust::transform( x.begin(), x.end(), thrust::device_pointer_cast( d_buffer), map)\<close>:
  element \<open>i\<close> of the field goes through the colour map into \<^verbatim>\<open>d_buffer[i]\<close>.  The
  elements are independent, so the order of the device threads does not show; a store
  through the uninitialised pointer or past the end of the data store is a fault.
\<close>

fun thrust_transform ::
  "('t \<Rightarrow> 'f Color) \<Rightarrow> 't list \<Rightarrow> (GLuint \<times> nat) option \<Rightarrow> nat \<Rightarrow> 'f runtime
     \<Rightarrow> (error \<times> 'f runtime) + 'f runtime" where
  "thrust_transform f [] p i rt = Inr rt"
| "thrust_transform f (v # vs) p i rt =
     (case p of
        None \<Rightarrow> Inl (WildWrite, rt)
      | Some (b, nbytes) \<Rightarrow>
          (case lookup_buffer rt b of
             None \<Rightarrow> Inl (WildWrite, rt)
           | Some fs \<Rightarrow>
               if 3 * i + 3 \<le> length fs
               then thrust_transform f vs p (Suc i) (device_write b i (f v) rt)
               else Inl (OutOfBoundsWrite, rt)))"

definition glTexImage2D :: "unsigned \<Rightarrow> unsigned \<Rightarrow> 'f runtime \<Rightarrow> 'f runtime" where
  "glTexImage2D width height rt = log (GlTexImage2D width height) rt"

text \<open>\<^verbatim>\<open>glLoadIdentity\<close>, then the four textured vertices between \<^verbatim>\<open>glBegin(GL_QUADS)\<close>
  and \<^verbatim>\<open>glEnd\<close>.\<close>

definition glQuad :: "'f runtime \<Rightarrow> 'f runtime" where
  "glQuad rt = log GlQuad rt"

definition glfwSwapBuffers :: "'f runtime \<Rightarrow> 'f runtime" where
  "glfwSwapBuffers rt = log GlfwSwapBuffers rt"

section \<open>The functions of \<^verbatim>\<open>device_window.cuh\<close>\<close>

text \<open>
  \<^verbatim>\<open>cudaGlfwInit\<close> opens the window and with it a new OpenGL context: no buffer objects,
  nothing bound.  Its failure branches only print.  The constructor's
  \<^verbatim>\<open>glClearColor\<close>, \<^verbatim>\<open>glClear\<close> and \<^verbatim>\<open>glfwSetWindowSizeCallback\<close> touch neither buffers
  nor registrations and leave no event.  \<^verbatim>\<open>N*sizeof(float)\<close> is computed in \<^verbatim>\<open>size_t\<close>
  (64 bits), so only \<^verbatim>\<open>3*Nx*Ny\<close> itself can wrap.
\<close>

definition cudaGlfwInit :: "int \<Rightarrow> int \<Rightarrow> 'f runtime \<Rightarrow> 'f runtime" where
  "cudaGlfwInit width height rt =
     log (GlfwOpenWindow width height) (rt\<lparr>gl_buffers := [], gl_unpack_binding := 0\<rparr>)"

definition allocateGlBuffer :: "unsigned \<Rightarrow> 'f runtime \<Rightarrow> GLuint \<times> 'f runtime" where
  "allocateGlBuffer N rt =
     (let (bufferID, rt1) = glGenBuffers rt;
          rt2 = glBindBuffer bufferID rt1;
          rt3 = glBufferData (unat N * 4) rt2
      in (bufferID, rt3))"

definition allocateCudaGlBuffer :: "unsigned \<Rightarrow> 'f runtime \<Rightarrow> handle \<times> 'f runtime" where
  "allocateCudaGlBuffer N rt =
     (let (bufferID, rt1) = allocateGlBuffer N rt;
          (registered, rt2) = cudaGraphicsGLRegisterBuffer bufferID rt1
      in case registered of
           None \<Rightarrow> (NULL, log StdCoutCudaErrorString rt2)
         | Some resource \<Rightarrow> (resource, rt2))"

definition freeCudaGlBuffer :: "handle \<Rightarrow> 'f runtime \<Rightarrow> 'f runtime" where
  "freeCudaGlBuffer resource rt = cudaGraphicsUnregisterResource resource rt"

text \<open>\<open>debug\<close> is whether \<^verbatim>\<open>DG_DEBUG\<close> is defined.\<close>

definition mapColors ::
  "bool \<Rightarrow> ('t \<Rightarrow> 'f Color) \<Rightarrow> 't list \<Rightarrow> handle \<Rightarrow> 'f runtime
     \<Rightarrow> (error \<times> 'f runtime) + 'f runtime" where
  "mapColors debug f x resource rt =
     (let rt1 = cudaGraphicsMapResources resource rt;
          (d_buffer, rt2) = cudaGraphicsResourceGetMappedPointer resource rt1
      in if debug \<and> d_buffer = None then Inl (IndeterminateRead, rt2)
         else if debug \<and> length x \<noteq> snd (the d_buffer) div 3 div 4
         then Inl (AssertionFailed, rt2)
         else (case thrust_transform f x d_buffer 0 rt2 of
                 Inl e \<Rightarrow> Inl e
               | Inr rt3 \<Rightarrow>
                   Inr (cudaGraphicsUnmapResources resource (cudaThreadSynchronize rt3))))"

record DeviceWindow =
  bufferID :: GLuint
  resource :: handle
  Nx_mem :: unsigned
  Ny_mem :: unsigned

text \<open>The members \<^verbatim>\<open>Nx_\<close> and \<^verbatim>\<open>Ny_\<close> are \<open>Nx_mem\<close> and \<open>Ny_mem\<close>.\<close>

definition DeviceWindow_ctor :: "int \<Rightarrow> int \<Rightarrow> 'f runtime \<Rightarrow> DeviceWindow \<times> 'f runtime" where
  "DeviceWindow_ctor width height rt =
     (\<lparr>bufferID = 0, resource = NULL, Nx_mem = 0, Ny_mem = 0\<rparr>, cudaGlfwInit width height rt)"

definition DeviceWindow_dtor :: "DeviceWindow \<times> 'f runtime \<Rightarrow> 'f runtime" where
  "DeviceWindow_dtor s =
     (case s of (w, rt) \<Rightarrow>
        log GlfwTerminate
          (if resource w \<noteq> NULL
           then glDeleteBuffers (bufferID w) (cudaGraphicsUnregisterResource (resource w) rt)
           else rt))"

text \<open>The body of the \<^verbatim>\<open>if( Nx != Nx_ || Ny != Ny_)\<close> of \<^verbatim>\<open>draw\<close>.\<close>

definition draw_realloc ::
  "unsigned \<Rightarrow> unsigned \<Rightarrow> DeviceWindow \<times> 'f runtime \<Rightarrow> DeviceWindow \<times> 'f runtime" where
  "draw_realloc Nx Ny s =
     (case s of (w, rt) \<Rightarrow>
        (let w1 = w\<lparr>Nx_mem := Nx, Ny_mem := Ny\<rparr>;
             rt1 = cudaGraphicsUnregisterResource (resource w1) rt;
             rt2 = log (StdCout ''Allocate resources for drawing!\<newline>'') rt1;
             (id1, rt3) = glGetIntegerv rt2;
             w2 = w1\<lparr>bufferID := id1\<rparr>;
             rt4 = glDeleteBuffers (bufferID w2) rt3;
             (res, rt5) = allocateCudaGlBuffer (3 * Nx * Ny) rt4;
             w3 = w2\<lparr>resource := res\<rparr>;
             (id2, rt6) = glGetIntegerv rt5
         in (w3\<lparr>bufferID := id2\<rparr>, rt6)))"

definition draw ::
  "bool \<Rightarrow> ('t \<Rightarrow> 'f Color) \<Rightarrow> 't list \<Rightarrow> unsigned \<Rightarrow> unsigned \<Rightarrow> DeviceWindow \<times> 'f runtime
     \<Rightarrow> (error \<times> DeviceWindow \<times> 'f runtime) + DeviceWindow \<times> 'f runtime" where
  "draw debug f x Nx Ny s =
     (let (w1, rt1) = (if Nx \<noteq> Nx_mem (fst s) \<or> Ny \<noteq> Ny_mem (fst s)
                       then draw_realloc Nx Ny s else s)
      in case mapColors debug f x (resource w1) rt1 of
           Inl (e, rt2) \<Rightarrow> Inl (e, w1, rt2)
         | Inr rt2 \<Rightarrow> Inr (w1, glfwSwapBuffers (glQuad (glTexImage2D Nx Ny rt2))))"

section \<open>Observations\<close>

text \<open>The state a call ends in, whether it returned or faulted.\<close>

definition final :: "(error \<times> 's) + 's \<Rightarrow> 's" where
  "final r = (case r of Inl (e, s) \<Rightarrow> s | Inr s \<Rightarrow> s)"

text \<open>The events a call added to the trace.\<close>

definition new_events :: "'f runtime \<Rightarrow> 'f runtime \<Rightarrow> event list" where
  "new_events rt rt' = drop (length (trace rt)) (trace rt')"

text \<open>The colour at interleaved position \<open>i\<close> of a buffer: floats \<open>3i\<close>, \<open>3i+1\<close>, \<open>3i+2\<close>.\<close>

definition color_at :: "'f runtime \<Rightarrow> GLuint \<Rightarrow> nat \<Rightarrow> 'f Color option" where
  "color_at rt b i =
     (case lookup_buffer rt b of
        None \<Rightarrow> None
      | Some fs \<Rightarrow>
          if 3 * i + 2 < length fs
          then (case (fs ! (3 * i), fs ! (3 * i + 1), fs ! (3 * i + 2)) of
                  (Some cr, Some cg, Some cb) \<Rightarrow> Some (Color cr cg cb)
                | _ \<Rightarrow> None)
          else None)"

text \<open>
  Who owns the shared buffer: the compute runtime while the resource is mapped, the
  graphics runtime otherwise.  \<open>ownership\<close> replays a sequence of events from an owner:
  a successful map hands the buffer to compute; a successful unmap, unregistration or
  registration leaves it with graphics; a device write needs compute to be the owner, the
  texture upload and the quad need graphics.
\<close>

datatype owner = Compute | Graphics

fun owner_step :: "owner \<Rightarrow> event \<Rightarrow> owner" where
  "owner_step st (CudaMap h ok) = (if ok then Compute else st)"
| "owner_step st (CudaUnmap h ok) = (if ok then Graphics else st)"
| "owner_step st (CudaUnregister h ok) = (if ok then Graphics else st)"
| "owner_step st (CudaRegister b h) = (if h \<noteq> NULL then Graphics else st)"
| "owner_step st e = st"

fun event_allowed :: "owner \<Rightarrow> event \<Rightarrow> bool" where
  "event_allowed st (DeviceWrite b i) = (st = Compute)"
| "event_allowed st (GlTexImage2D nx ny) = (st = Graphics)"
| "event_allowed st GlQuad = (st = Graphics)"
| "event_allowed st e = True"

fun ownership :: "owner \<Rightarrow> event list \<Rightarrow> bool" where
  "ownership st [] = True"
| "ownership st (e # es) = (event_allowed st e \<and> ownership (owner_step st e) es)"

definition owner_of :: "'f runtime \<Rightarrow> handle \<Rightarrow> owner" where
  "owner_of rt h = (case lookup_resource rt h of Some (b, True) \<Rightarrow> Compute | _ \<Rightarrow> Graphics)"

text \<open>The events that release or create a buffer or a registration.\<close>

fun is_realloc_event :: "event \<Rightarrow> bool" where
  "is_realloc_event (CudaUnregister h ok) = True"
| "is_realloc_event (GlDeleteBuffers b) = True"
| "is_realloc_event (GlGenBuffers b) = True"
| "is_realloc_event (GlBindBuffer b) = True"
| "is_realloc_event (GlBufferData n ok) = True"
| "is_realloc_event (CudaRegister b h) = True"
| "is_realloc_event e = False"

text \<open>
  \<open>extends_with P rt rt'\<close>: the run from \<open>rt\<close> to \<open>rt'\<close> only added events to the trace, and
  every event it added satisfies \<open>P\<close>.
\<close>

definition extends_with :: "(event \<Rightarrow> bool) \<Rightarrow> 'f runtime \<Rightarrow> 'f runtime \<Rightarrow> bool" where
  "extends_with P rt rt' =
     (take (length (trace rt)) (trace rt') = trace rt \<and> list_all P (new_events rt rt'))"

text \<open>
  \<open>owned_run h rt h' rt'\<close>: the run from \<open>rt\<close> to \<open>rt'\<close> only added events, the events
  respect the ownership of the buffer, starting from the owner of the resource \<open>h\<close> in
  \<open>rt\<close>, and the owner they end in is the owner of the resource \<open>h'\<close> in \<open>rt'\<close>.
\<close>

definition owned_run :: "handle \<Rightarrow> 'f runtime \<Rightarrow> handle \<Rightarrow> 'f runtime \<Rightarrow> bool" where
  "owned_run h rt h' rt' =
     (take (length (trace rt)) (trace rt') = trace rt \<and>
      ownership (owner_of rt h) (new_events rt rt') \<and>
      foldl owner_step (owner_of rt h) (new_events rt rt') = owner_of rt' h')"

text \<open>An event that neither moves the buffer nor needs an owner.\<close>

definition neutral :: "event \<Rightarrow> bool" where
  "neutral e = (\<forall>st. event_allowed st e \<and> owner_step st e = st)"

text \<open>The pointer \<^verbatim>\<open>allocateCudaGlBuffer\<close> returns for the outcome of a registration.\<close>

definition registered :: "handle option \<Rightarrow> handle" where
  "registered r = (case r of None \<Rightarrow> NULL | Some h \<Rightarrow> h)"

text \<open>The runtime after the release calls at the head of the branch of \<^verbatim>\<open>draw\<close>.\<close>

definition released :: "DeviceWindow \<times> 'f runtime \<Rightarrow> 'f runtime" where
  "released s =
     (let rt2 = log (StdCout ''Allocate resources for drawing!\<newline>'')
                  (cudaGraphicsUnregisterResource (resource (fst s)) (snd s))
      in glDeleteBuffers (fst (glGetIntegerv rt2)) (snd (glGetIntegerv rt2)))"

text \<open>
  The state \<open>Bound(w,h)\<close> of the window: its handle is a registration of its buffer, the
  buffer is the one bound to the pixel-unpack target, and its data store has the
  \<^verbatim>\<open>3*Nx_*Ny_\<close> floats of the recorded dimensions.
\<close>

definition bound :: "DeviceWindow \<times> 'f runtime \<Rightarrow> bool" where
  "bound s =
     (case lookup_resource (snd s) (resource (fst s)) of
        None \<Rightarrow> False
      | Some (b, m) \<Rightarrow>
          b = bufferID (fst s) \<and> gl_unpack_binding (snd s) = b \<and>
          (case lookup_buffer (snd s) b of
             None \<Rightarrow> False
           | Some fs \<Rightarrow> length fs = unat (3 * Nx_mem (fst s) * Ny_mem (fst s))))"

text \<open>
  \<open>same_shape rt rt'\<close>: the same binding and the same answers to come, the same
  registrations of the same buffers (mapped or not), the same buffers with data stores of
  the same sizes (whatever they hold).
\<close>

definition same_shape :: "'f runtime \<Rightarrow> 'f runtime \<Rightarrow> bool" where
  "same_shape rt rt' =
     (gl_unpack_binding rt' = gl_unpack_binding rt \<and>
      gl_data_ok rt' = gl_data_ok rt \<and> cuda_register_ok rt' = cuda_register_ok rt \<and>
      (\<forall>h. map_option fst (lookup_resource rt' h) = map_option fst (lookup_resource rt h)) \<and>
      (\<forall>b. map_option length (lookup_buffer rt' b) = map_option length (lookup_buffer rt b)))"

text \<open>The state in which \<^verbatim>\<open>draw\<close> calls \<^verbatim>\<open>mapColors\<close>.\<close>

definition prepared :: "unsigned \<Rightarrow> unsigned \<Rightarrow> DeviceWindow \<times> 'f runtime \<Rightarrow> DeviceWindow \<times> 'f runtime" where
  "prepared Nx Ny s =
     (if Nx \<noteq> Nx_mem (fst s) \<or> Ny \<noteq> Ny_mem (fst s) then draw_realloc Nx Ny s else s)"

subsection \<open>Concrete inputs\<close>

text \<open>
  A process that has not touched either runtime yet, whose runtimes never refuse anything,
  and a colour map on numbers with three different components.
\<close>

definition fresh_process :: "nat runtime" where
  "fresh_process =
     \<lparr>gl_buffers = [], gl_unpack_binding = 0, cuda_resources = [], gl_names = [],
      gl_data_ok = [], cuda_register_ok = [], cuda_ptrs = [], trace = []\<rparr>"

definition gray :: "nat \<Rightarrow> nat Color" where
  "gray v = Color v (v + 1) (v + 2)"

text \<open>A process whose next \<^verbatim>\<open>glBufferData\<close> finds no memory, and one whose next
  registration is refused.\<close>

definition refusing_memory :: "nat runtime" where
  "refusing_memory = fresh_process\<lparr>gl_data_ok := [False]\<rparr>"

definition refusing_registration :: "nat runtime" where
  "refusing_registration = fresh_process\<lparr>cuda_register_ok := [False]\<rparr>"

text \<open>The window after its construction, and after a first frame of one pixel.\<close>

definition booted :: "DeviceWindow \<times> nat runtime" where
  "booted = DeviceWindow_ctor 800 600 fresh_process"

definition drawn_1x1 :: "DeviceWindow \<times> nat runtime" where
  "drawn_1x1 = final (draw False gray [10] 1 1 booted)"

text \<open>
  Further frames on that window: a first frame with zero dimensions instead, and a second
  frame two pixels wide.
\<close>

definition drawn_0x0 :: "DeviceWindow \<times> nat runtime" where
  "drawn_0x0 = final (draw False gray [] 0 0 booted)"

definition drawn_2x1 :: "DeviceWindow \<times> nat runtime" where
  "drawn_2x1 = final (draw False gray [10, 20] 2 1 drawn_1x1)"




section \<open>First facts\<close>

lemma pick_fresh_nonzero: "fst (pick_fresh ns used) \<noteq> 0"
  by (induction ns) auto

lemma replicate_numeral: "replicate (numeral k) v = v # replicate (pred_numeral k) v"
  by (simp add: numeral_eq_Suc)

lemmas api_defs = log_def lookup_resource_def lookup_buffer_def
  cudaGraphicsUnregisterResource_def glGetIntegerv_def glDeleteBuffers_def glGenBuffers_def
  glBindBuffer_def glBufferData_def cudaGraphicsGLRegisterBuffer_def cudaGraphicsMapResources_def
  cudaGraphicsResourceGetMappedPointer_def cudaThreadSynchronize_def cudaGraphicsUnmapResources_def
  device_write_def glTexImage2D_def glQuad_def glfwSwapBuffers_def cudaGlfwInit_def

lemmas code_defs = allocateGlBuffer_def allocateCudaGlBuffer_def mapColors_def
  DeviceWindow_ctor_def draw_realloc_def draw_def

lemmas example_defs = api_defs code_defs fresh_process_def gray_def Let_def replicate_numeral

subsection \<open>What a call adds to the trace\<close>

lemma final_simps [simp]: "final (Inl (e, s)) = s" "final (Inr s) = s"
  by (simp_all add: final_def)

lemma extends_withI: "trace rt' = trace rt @ evs \<Longrightarrow> list_all P evs \<Longrightarrow> extends_with P rt rt'"
  by (simp add: extends_with_def new_events_def)

lemma extends_withD: "extends_with P rt rt' \<Longrightarrow> \<exists>evs. trace rt' = trace rt @ evs \<and> list_all P evs \<and> new_events rt rt' = evs"
  unfolding extends_with_def new_events_def
  by (metis append_take_drop_id)

lemma extends_with_refl: "extends_with P rt rt"
  by (simp add: extends_with_def new_events_def)

lemma extends_with_trans:
  assumes "extends_with P rt rt1" and "extends_with P rt1 rt2"
  shows "extends_with P rt rt2"
proof -
  from assms(1) obtain e1 where e1: "trace rt1 = trace rt @ e1" "list_all P e1"
    using extends_withD by blast
  from assms(2) obtain e2 where e2: "trace rt2 = trace rt1 @ e2" "list_all P e2"
    using extends_withD by blast
  show ?thesis
    by (rule extends_withI [where evs = "e1 @ e2"]) (simp_all add: e1 e2)
qed

lemma extends_with_log: "P e \<Longrightarrow> extends_with P rt (log e rt)"
  by (rule extends_withI [where evs = "[e]"]) (simp_all add: log_def)

lemma extends_with_log': "P e \<Longrightarrow> trace rt1 = trace rt \<Longrightarrow> extends_with P rt (log e rt1)"
  by (rule extends_withI [where evs = "[e]"]) (simp_all add: log_def)

lemma cudaGraphicsMapResources_extends:
  "(\<And>ok. P (CudaMap h ok)) \<Longrightarrow> extends_with P rt (cudaGraphicsMapResources h rt)"
  by (auto simp: cudaGraphicsMapResources_def intro!: extends_with_log' split: option.splits)

lemma cudaGraphicsUnmapResources_extends:
  "(\<And>ok. P (CudaUnmap h ok)) \<Longrightarrow> extends_with P rt (cudaGraphicsUnmapResources h rt)"
  by (auto simp: cudaGraphicsUnmapResources_def intro!: extends_with_log' split: option.splits)

lemma cudaGraphicsResourceGetMappedPointer_extends:
  "(\<And>ok. P (CudaGetMappedPointer h ok)) \<Longrightarrow>
   extends_with P rt (snd (cudaGraphicsResourceGetMappedPointer h rt))"
  by (auto simp: cudaGraphicsResourceGetMappedPointer_def intro!: extends_with_log' split: option.splits)

lemma device_write_extends:
  "(\<And>b i. P (DeviceWrite b i)) \<Longrightarrow> extends_with P rt (device_write b i c rt)"
  by (auto simp: device_write_def intro!: extends_with_log' extends_with_refl split: option.splits)

lemma thrust_transform_extends:
  "(\<And>b i. P (DeviceWrite b i)) \<Longrightarrow> extends_with P rt (final (thrust_transform f x p i rt))"
proof (induction x arbitrary: i rt)
  case Nil
  then show ?case by (simp add: extends_with_refl)
next
  case (Cons v vs)
  show ?case
  proof (cases p)
    case None
    then show ?thesis by (simp add: extends_with_refl)
  next
    case (Some bn)
    obtain b n where bn: "bn = (b, n)" by (cases bn)
    show ?thesis
    proof (cases "lookup_buffer rt b")
      case None
      then show ?thesis using Some bn by (simp add: extends_with_refl)
    next
      case (Some fs)
      show ?thesis
      proof (cases "3 * i + 3 \<le> length fs")
        case True
        have "extends_with P rt (device_write b i (f v) rt)"
          using Cons.prems by (rule device_write_extends)
        moreover have "extends_with P (device_write b i (f v) rt)
            (final (thrust_transform f vs p (Suc i) (device_write b i (f v) rt)))"
          using Cons.prems by (rule Cons.IH)
        ultimately show ?thesis
          using \<open>p = Some bn\<close> bn Some True by (simp add: extends_with_trans)
      next
        case False
        then show ?thesis
          using \<open>p = Some bn\<close> bn Some by (simp add: extends_with_refl)
      qed
    qed
  qed
qed


lemma cudaThreadSynchronize_extends:
  "P CudaThreadSynchronize \<Longrightarrow> extends_with P rt (cudaThreadSynchronize rt)"
  by (simp add: cudaThreadSynchronize_def extends_with_log)

lemma mapColors_extends:
  assumes "\<And>ok. P (CudaMap h ok)" and "\<And>ok. P (CudaGetMappedPointer h ok)"
    and "\<And>b i. P (DeviceWrite b i)" and "P CudaThreadSynchronize"
    and "\<And>ok. P (CudaUnmap h ok)"
  shows "extends_with P rt (final (mapColors debug f x h rt))"
proof -
  define rt1 where "rt1 = cudaGraphicsMapResources h rt"
  obtain p rt2 where g: "cudaGraphicsResourceGetMappedPointer h rt1 = (p, rt2)"
    by (cases "cudaGraphicsResourceGetMappedPointer h rt1")
  define rt3 where "rt3 = final (thrust_transform f x p 0 rt2)"
  have 1: "extends_with P rt rt1"
    unfolding rt1_def using assms(1) by (rule cudaGraphicsMapResources_extends)
  have "extends_with P rt1 (snd (cudaGraphicsResourceGetMappedPointer h rt1))"
    using assms(2) by (rule cudaGraphicsResourceGetMappedPointer_extends)
  then have 2: "extends_with P rt rt2"
    using 1 g by (auto intro: extends_with_trans)
  have 3: "extends_with P rt rt3"
    unfolding rt3_def
    using 2 thrust_transform_extends [where P = P and rt = rt2 and f = f and x = x and p = p and i = 0] assms(3)
    by (blast intro: extends_with_trans)
  have 4: "extends_with P rt3 (cudaGraphicsUnmapResources h (cudaThreadSynchronize rt3))"
    using cudaThreadSynchronize_extends [of P rt3, OF assms(4)]
      cudaGraphicsUnmapResources_extends [of P h "cudaThreadSynchronize rt3"] assms(5)
    by (blast intro: extends_with_trans)
  show ?thesis
    using 2 3 4 g
    by (auto simp: mapColors_def rt1_def [symmetric] Let_def rt3_def
        split: sum.splits intro: extends_with_trans)
qed

lemma present_extends:
  assumes "P (GlTexImage2D Nx Ny)" and "P GlQuad" and "P GlfwSwapBuffers"
  shows "extends_with P rt (glfwSwapBuffers (glQuad (glTexImage2D Nx Ny rt)))"
  by (rule extends_withI [where evs = "[GlTexImage2D Nx Ny, GlQuad, GlfwSwapBuffers]"])
    (simp_all add: glfwSwapBuffers_def glQuad_def glTexImage2D_def log_def assms)

lemma draw_window:
  "fst (final (draw debug f x Nx Ny s)) =
     fst (if Nx \<noteq> Nx_mem (fst s) \<or> Ny \<noteq> Ny_mem (fst s) then draw_realloc Nx Ny s else s)"
  by (simp add: draw_def split: prod.splits sum.splits)

lemma draw_realloc_dims:
  "Nx_mem (fst (draw_realloc Nx Ny s)) = Nx \<and> Ny_mem (fst (draw_realloc Nx Ny s)) = Ny"
  by (simp add: draw_realloc_def Let_def split: prod.splits)

lemma draw_dims:
  "Nx_mem (fst (final (draw debug f x Nx Ny s))) = Nx \<and>
   Ny_mem (fst (final (draw debug f x Nx Ny s))) = Ny"
  by (auto simp: draw_window draw_realloc_dims)

lemma draw_same_dims:
  assumes "Nx_mem (fst s) = Nx" and "Ny_mem (fst s) = Ny"
  shows "snd (final (draw debug f x Nx Ny s)) =
     (case mapColors debug f x (resource (fst s)) (snd s) of
        Inl (e, rt2) \<Rightarrow> rt2
      | Inr rt2 \<Rightarrow> glfwSwapBuffers (glQuad (glTexImage2D Nx Ny rt2)))"
  using assms by (cases s) (simp add: draw_def split: prod.splits sum.splits)

lemma draw_same_dims_extends:
  assumes "Nx_mem (fst s) = Nx" and "Ny_mem (fst s) = Ny"
  shows "extends_with (\<lambda>e. \<not> is_realloc_event e) (snd s) (snd (final (draw debug f x Nx Ny s)))"
proof -
  let ?P = "\<lambda>e. \<not> is_realloc_event e"
  have m: "extends_with ?P (snd s) (final (mapColors debug f x (resource (fst s)) (snd s)))"
    by (rule mapColors_extends) simp_all
  show ?thesis
  proof (cases "mapColors debug f x (resource (fst s)) (snd s)")
    case (Inl a)
    then show ?thesis
      using m by (cases a) (simp add: draw_same_dims [OF assms])
  next
    case (Inr rt2)
    have "extends_with ?P rt2 (glfwSwapBuffers (glQuad (glTexImage2D Nx Ny rt2)))"
      by (rule present_extends) simp_all
    then show ?thesis
      using m Inr by (auto simp: draw_same_dims [OF assms] intro: extends_with_trans)
  qed
qed

subsection \<open>The concrete runs\<close>

lemma booted_value:
  "booted = (\<lparr>bufferID = 0, resource = NULL, Nx_mem = 0, Ny_mem = 0\<rparr>,
     \<lparr>gl_buffers = [], gl_unpack_binding = 0, cuda_resources = [], gl_names = [],
      gl_data_ok = [], cuda_register_ok = [], cuda_ptrs = [],
      trace = [GlfwOpenWindow 800 600]\<rparr>)"
  by (simp add: booted_def example_defs)

lemma drawn_1x1_returns: "draw False gray [10] 1 1 booted = Inr drawn_1x1"
  by (simp add: drawn_1x1_def booted_def example_defs)

lemma drawn_1x1_value:
  "drawn_1x1 =
     (\<lparr>bufferID = 1, resource = 1, Nx_mem = 1, Ny_mem = 1\<rparr>,
      \<lparr>gl_buffers = [(1, [Some 10, Some 11, Some 12])], gl_unpack_binding = 1,
       cuda_resources = [(1, 1, False)], gl_names = [], gl_data_ok = [],
       cuda_register_ok = [], cuda_ptrs = [],
       trace =
         [GlfwOpenWindow 800 600, CudaUnregister NULL False,
          StdCout ''Allocate resources for drawing!\<newline>'', GlGetBinding 0,
          GlDeleteBuffers 0, GlGenBuffers 1, GlBindBuffer 1, GlBufferData 12 True,
          CudaRegister 1 1, GlGetBinding 1, CudaMap 1 True, CudaGetMappedPointer 1 True,
          DeviceWrite 1 0, CudaThreadSynchronize, CudaUnmap 1 True, GlTexImage2D 1 1,
          GlQuad, GlfwSwapBuffers]\<rparr>)"
  by (simp add: drawn_1x1_def booted_def example_defs)

section \<open>The recorded dimensions\<close>

text \<open>
  C9.  After \<^verbatim>\<open>draw(field, width, height, map)\<close> the recorded dimensions \<open>(Nx_, Ny_)\<close>
  are \<open>(width, height)\<close>, whether the call reallocated or not.  This holds for every
  width and height (zero included) and in whatever way the call ends.
\<close>

theorem draw_records_dimensions:
  "Nx_mem (fst (final (draw debug f x Nx Ny s))) = Nx \<and>
   Ny_mem (fst (final (draw debug f x Nx Ny s))) = Ny"
  by (rule draw_dims)

theorem draw_records_dimensions_witness:
  "draw False gray [10] 1 1 booted = Inr drawn_1x1 \<and>
   Nx_mem (fst drawn_1x1) = 1 \<and> Ny_mem (fst drawn_1x1) = 1"
  using draw_records_dimensions [of False gray "[10]" 1 1 booted]
  by (simp add: drawn_1x1_returns)

section \<open>Two draws with the same dimensions\<close>

text \<open>
  C4.  A second \<^verbatim>\<open>draw\<close> with the dimensions of the first reallocates nothing: the
  registration handle and the graphics buffer handle of the window are those the first
  call left, and the second call issues no call that releases or creates a buffer or a
  registration.
\<close>

theorem draw_twice_same_dimensions:
  assumes "s1 = final (draw debug f x Nx Ny s)"
    and "s2 = final (draw debug' g y Nx Ny s1)"
  shows "resource (fst s2) = resource (fst s1) \<and> bufferID (fst s2) = bufferID (fst s1) \<and>
    extends_with (\<lambda>e. \<not> is_realloc_event e) (snd s1) (snd s2)"
proof -
  have d: "Nx_mem (fst s1) = Nx" "Ny_mem (fst s1) = Ny"
    using assms(1) by (simp_all add: draw_dims)
  then have "fst s2 = fst s1"
    using assms(2) by (simp add: draw_window)
  moreover have "extends_with (\<lambda>e. \<not> is_realloc_event e) (snd s1) (snd s2)"
    unfolding assms(2) using d by (rule draw_same_dims_extends)
  ultimately show ?thesis by simp
qed

lemma drawn_1x1_again:
  "draw False gray [20] 1 1 drawn_1x1 =
   Inr (\<lparr>bufferID = 1, resource = 1, Nx_mem = 1, Ny_mem = 1\<rparr>,
        \<lparr>gl_buffers = [(1, [Some 20, Some 21, Some 22])], gl_unpack_binding = 1,
         cuda_resources = [(1, 1, False)], gl_names = [], gl_data_ok = [],
         cuda_register_ok = [], cuda_ptrs = [],
         trace = trace (snd drawn_1x1) @
           [CudaMap 1 True, CudaGetMappedPointer 1 True,
            DeviceWrite 1 0, CudaThreadSynchronize, CudaUnmap 1 True, GlTexImage2D 1 1,
            GlQuad, GlfwSwapBuffers]\<rparr>)"
  by (simp add: drawn_1x1_value example_defs)

theorem draw_twice_same_dimensions_witness:
  "draw False gray [10] 1 1 booted = Inr drawn_1x1 \<and>
   (\<exists>s2. draw False gray [20] 1 1 drawn_1x1 = Inr s2 \<and>
      resource (fst s2) = resource (fst drawn_1x1) \<and> resource (fst s2) = 1 \<and>
      bufferID (fst s2) = bufferID (fst drawn_1x1) \<and> bufferID (fst s2) = 1 \<and>
      extends_with (\<lambda>e. \<not> is_realloc_event e) (snd drawn_1x1) (snd s2))"
  using draw_twice_same_dimensions [OF drawn_1x1_def refl, of False gray "[20]"]
  by (simp add: drawn_1x1_returns drawn_1x1_again) (simp add: drawn_1x1_value)

section \<open>The transform stage\<close>

subsection \<open>What the calls do to the registrations and the buffers\<close>

lemma lookup_log [simp]:
  "lookup_resource (log e rt) h = lookup_resource rt h"
  "lookup_buffer (log e rt) b = lookup_buffer rt b"
  by (simp_all add: lookup_resource_def lookup_buffer_def log_def)

lemma Map_lookup_buffer [simp]:
  "lookup_buffer (cudaGraphicsMapResources h rt) b = lookup_buffer rt b"
  by (simp add: cudaGraphicsMapResources_def lookup_buffer_def log_def split: option.splits)

lemma Map_lookup_resource:
  "lookup_resource (cudaGraphicsMapResources h rt) h' =
     (if h' = h
      then (case lookup_resource rt h of
              None \<Rightarrow> None
            | Some (b, m) \<Rightarrow> Some (b, m \<or> lookup_buffer rt b \<noteq> None))
      else lookup_resource rt h')"
  by (auto simp: cudaGraphicsMapResources_def lookup_resource_def log_def update_conv'
      split: option.splits)

lemma Unmap_lookup_buffer [simp]:
  "lookup_buffer (cudaGraphicsUnmapResources h rt) b = lookup_buffer rt b"
  by (simp add: cudaGraphicsUnmapResources_def lookup_buffer_def log_def split: option.splits)

lemma Unmap_lookup_resource:
  "lookup_resource (cudaGraphicsUnmapResources h rt) h' =
     (if h' = h
      then (case lookup_resource rt h of None \<Rightarrow> None | Some (b, m) \<Rightarrow> Some (b, False))
      else lookup_resource rt h')"
  by (auto simp: cudaGraphicsUnmapResources_def lookup_resource_def log_def update_conv'
      split: option.splits)

lemma GetMappedPointer_snd [simp]:
  "lookup_buffer (snd (cudaGraphicsResourceGetMappedPointer h rt)) b = lookup_buffer rt b"
  "lookup_resource (snd (cudaGraphicsResourceGetMappedPointer h rt)) h' = lookup_resource rt h'"
  by (simp_all add: cudaGraphicsResourceGetMappedPointer_def split: option.splits)

lemma GetMappedPointer_fst:
  "fst (cudaGraphicsResourceGetMappedPointer h rt) =
     (case lookup_resource rt h of
        None \<Rightarrow> None
      | Some (b, m) \<Rightarrow>
          (case lookup_buffer rt b of
             None \<Rightarrow> None
           | Some fs \<Rightarrow> if m then Some (b, 4 * length fs) else None))"
  by (simp add: cudaGraphicsResourceGetMappedPointer_def split: option.splits)

lemma Synchronize_lookup [simp]:
  "lookup_resource (cudaThreadSynchronize rt) h = lookup_resource rt h"
  "lookup_buffer (cudaThreadSynchronize rt) b = lookup_buffer rt b"
  by (simp_all add: cudaThreadSynchronize_def)

lemma device_write_lookup_resource [simp]:
  "lookup_resource (device_write b i c rt) h = lookup_resource rt h"
  by (simp add: device_write_def lookup_resource_def log_def split: option.splits)

lemma device_write_lookup_buffer:
  "lookup_buffer rt b = Some fs \<Longrightarrow>
   lookup_buffer (device_write b i c rt) b =
     Some (fs[3 * i := Some (red c), 3 * i + 1 := Some (green c), 3 * i + 2 := Some (blue c)])"
  by (auto simp: device_write_def lookup_buffer_def log_def update_conv' split: if_splits)

lemma thrust_transform_lookup_resource [simp]:
  "lookup_resource (final (thrust_transform f x p i rt)) h = lookup_resource rt h"
  by (induction x arbitrary: i rt) (auto split: option.splits)

text \<open>What a transform that returns has written, and that it had the room.\<close>

lemma thrust_transform_Inr:
  assumes "thrust_transform f x (Some (b, n)) i rt = Inr rt'"
    and "lookup_buffer rt b = Some fs"
  shows "\<exists>fs'. lookup_buffer rt' b = Some fs' \<and> length fs' = length fs \<and>
     (\<forall>j<length x. fs' ! (3 * (i + j)) = Some (red (f (x ! j))) \<and>
        fs' ! (3 * (i + j) + 1) = Some (green (f (x ! j))) \<and>
        fs' ! (3 * (i + j) + 2) = Some (blue (f (x ! j)))) \<and>
     (\<forall>k<3 * i. fs' ! k = fs ! k) \<and>
     (x \<noteq> [] \<longrightarrow> 3 * (i + length x) \<le> length fs)"
  using assms
proof (induction x arbitrary: i rt fs)
  case Nil
  then show ?case by simp
next
  case (Cons v vs)
  let ?c = "f v"
  let ?fs1 = "fs[3 * i := Some (red ?c), 3 * i + 1 := Some (green ?c), 3 * i + 2 := Some (blue ?c)]"
  let ?rt1 = "device_write b i ?c rt"
  from Cons.prems have room: "3 * i + 3 \<le> length fs"
    by (simp split: if_splits)
  with Cons.prems have rec: "thrust_transform f vs (Some (b, n)) (Suc i) ?rt1 = Inr rt'"
    by simp
  have b1: "lookup_buffer ?rt1 b = Some ?fs1"
    using Cons.prems(2) by (rule device_write_lookup_buffer)
  from Cons.IH [OF rec b1] obtain fs' where
    fs': "lookup_buffer rt' b = Some fs'" "length fs' = length fs"
    and tail: "\<And>j. j < length vs \<Longrightarrow>
        fs' ! (3 * (Suc i + j)) = Some (red (f (vs ! j))) \<and>
        fs' ! (3 * (Suc i + j) + 1) = Some (green (f (vs ! j))) \<and>
        fs' ! (3 * (Suc i + j) + 2) = Some (blue (f (vs ! j)))"
    and keep: "\<And>k. k < 3 * Suc i \<Longrightarrow> fs' ! k = ?fs1 ! k"
    and len: "vs \<noteq> [] \<Longrightarrow> 3 * (Suc i + length vs) \<le> length fs"
    by auto
  have cells: "fs' ! (3 * (i + j)) = Some (red (f ((v # vs) ! j))) \<and>
        fs' ! (3 * (i + j) + 1) = Some (green (f ((v # vs) ! j))) \<and>
        fs' ! (3 * (i + j) + 2) = Some (blue (f ((v # vs) ! j)))" if "j < length (v # vs)" for j
  proof (cases j)
    case 0
    then show ?thesis
      using keep [of "3 * i"] keep [of "3 * i + 1"] keep [of "3 * i + 2"] room by simp
  next
    case (Suc j')
    then show ?thesis
      using tail [of j'] that by simp
  qed
  have old: "fs' ! k = fs ! k" if "k < 3 * i" for k
    using keep [of k] that by simp
  have "3 * (i + length (v # vs)) \<le> length fs"
    using len room by (cases vs) simp_all
  then show ?case
    using fs' cells old by blast
qed

lemma thrust_transform_returns:
  assumes "lookup_buffer rt b = Some fs" and "3 * (i + length x) \<le> length fs"
  shows "\<exists>rt'. thrust_transform f x (Some (b, n)) i rt = Inr rt'"
  using assms
proof (induction x arbitrary: i rt fs)
  case Nil
  then show ?case by simp
next
  case (Cons v vs)
  let ?rt1 = "device_write b i (f v) rt"
  have "\<exists>fs1. lookup_buffer ?rt1 b = Some fs1 \<and> length fs1 = length fs"
    using device_write_lookup_buffer [OF Cons.prems(1)] by simp
  then obtain fs1 where "lookup_buffer ?rt1 b = Some fs1" "length fs1 = length fs"
    by blast
  then have "\<exists>rt'. thrust_transform f vs (Some (b, n)) (Suc i) ?rt1 = Inr rt'"
    using Cons.IH [of ?rt1 fs1 "Suc i"] Cons.prems(2) by simp
  then show ?case
    using Cons.prems by simp
qed

lemma thrust_transform_None:
  "thrust_transform f x None i rt = Inr rt' \<Longrightarrow> x = [] \<and> rt' = rt"
  by (cases x) simp_all


lemma mapColors_unfold:
  "mapColors debug f x h rt =
     (let rt1 = cudaGraphicsMapResources h rt;
          p = fst (cudaGraphicsResourceGetMappedPointer h rt1);
          rt2 = snd (cudaGraphicsResourceGetMappedPointer h rt1)
      in if debug \<and> p = None then Inl (IndeterminateRead, rt2)
         else if debug \<and> length x \<noteq> snd (the p) div 3 div 4 then Inl (AssertionFailed, rt2)
         else (case thrust_transform f x p 0 rt2 of
                 Inl e \<Rightarrow> Inl e
               | Inr rt3 \<Rightarrow> Inr (cudaGraphicsUnmapResources h (cudaThreadSynchronize rt3))))"
  by (simp add: mapColors_def Let_def case_prod_unfold)

lemma mapColors_Inr:
  assumes ret: "mapColors debug f x h rt = Inr rt'"
    and reg: "lookup_resource rt h = Some (b, m)"
  shows "(\<forall>i<length x. color_at rt' b i = Some (f (x ! i))) \<and>
         lookup_resource rt' h = Some (b, False)"
proof -
  define rt1 where "rt1 = cudaGraphicsMapResources h rt"
  define p where "p = fst (cudaGraphicsResourceGetMappedPointer h rt1)"
  define rt2 where "rt2 = snd (cudaGraphicsResourceGetMappedPointer h rt1)"
  define m1 where "m1 = (m \<or> lookup_buffer rt b \<noteq> None)"
  have reg1: "lookup_resource rt1 h = Some (b, m1)"
    by (simp add: rt1_def m1_def Map_lookup_resource reg)
  have reg2: "lookup_resource rt2 h = Some (b, m1)"
    by (simp add: rt2_def reg1)
  have buf2: "lookup_buffer rt2 b = lookup_buffer rt b"
    by (simp add: rt2_def rt1_def)
  have p_eq: "p = (case lookup_buffer rt b of
                     None \<Rightarrow> None
                   | Some fs \<Rightarrow> if m1 then Some (b, 4 * length fs) else None)"
    by (simp add: p_def GetMappedPointer_fst reg1) (simp add: rt1_def)
  from ret obtain rt3 where
    tr: "thrust_transform f x p 0 rt2 = Inr rt3"
    and rt': "rt' = cudaGraphicsUnmapResources h (cudaThreadSynchronize rt3)"
    by (auto simp: mapColors_unfold Let_def rt1_def [symmetric] p_def [symmetric]
        rt2_def [symmetric] split: if_splits sum.splits)
  have "lookup_resource rt3 h = Some (b, m1)"
    using thrust_transform_lookup_resource [of f x p 0 rt2 h] tr reg2 by simp
  then have unmapped: "lookup_resource rt' h = Some (b, False)"
    by (simp add: rt' Unmap_lookup_resource)
  have colors: "color_at rt' b i = Some (f (x ! i))" if "i < length x" for i
  proof (cases p)
    case None
    then show ?thesis
      using thrust_transform_None tr that by fastforce
  next
    case (Some bn)
    then obtain fs where fs: "lookup_buffer rt b = Some fs" and p: "p = Some (b, 4 * length fs)"
      using p_eq by (auto split: option.splits if_splits)
    from thrust_transform_Inr [OF tr [unfolded p] fs [folded buf2]] obtain fs' where
      fs': "lookup_buffer rt3 b = Some fs'" "length fs' = length fs"
      and cells: "\<And>j. j < length x \<Longrightarrow>
          fs' ! (3 * j) = Some (red (f (x ! j))) \<and>
          fs' ! (3 * j + 1) = Some (green (f (x ! j))) \<and>
          fs' ! (3 * j + 2) = Some (blue (f (x ! j)))"
      and room: "x \<noteq> [] \<Longrightarrow> 3 * length x \<le> length fs"
      by auto
    have "x \<noteq> []" using that by auto
    then have "3 * i + 2 < length fs'"
      using room that fs'(2) by simp
    moreover have "lookup_buffer rt' b = Some fs'"
      by (simp add: rt' fs'(1))
    ultimately show ?thesis
      using cells [OF that] by (simp add: color_at_def)
  qed
  show ?thesis
    using colors unmapped by blast
qed

lemma mapColors_returns:
  assumes reg: "lookup_resource rt h = Some (b, False)"
    and buf: "lookup_buffer rt b = Some fs"
    and room: "3 * length x \<le> length fs"
    and dbg: "debug \<Longrightarrow> length x = 4 * length fs div 3 div 4"
  shows "\<exists>rt'. mapColors debug f x h rt = Inr rt'"
proof -
  define rt1 where "rt1 = cudaGraphicsMapResources h rt"
  define p where "p = fst (cudaGraphicsResourceGetMappedPointer h rt1)"
  define rt2 where "rt2 = snd (cudaGraphicsResourceGetMappedPointer h rt1)"
  have reg1: "lookup_resource rt1 h = Some (b, True)"
    by (simp add: rt1_def Map_lookup_resource reg buf)
  have p: "p = Some (b, 4 * length fs)"
    by (simp add: p_def GetMappedPointer_fst reg1) (simp add: rt1_def buf)
  have "lookup_buffer rt2 b = Some fs"
    by (simp add: rt2_def rt1_def buf)
  then obtain rt3 where "thrust_transform f x (Some (b, 4 * length fs)) 0 rt2 = Inr rt3"
    using thrust_transform_returns [of rt2 b fs 0 x f "4 * length fs"] room by auto
  then show ?thesis
    using dbg
    by (auto simp: mapColors_unfold Let_def rt1_def [symmetric] p_def [symmetric]
        rt2_def [symmetric] p)
qed

text \<open>
  C1.  For every field \<open>x\<close> and colour map \<open>f\<close>, and a registered resource \<open>h\<close> of buffer
  \<open>b\<close>: after \<^verbatim>\<open>mapColors\<close> has returned, buffer \<open>b\<close> holds the colour \<open>f (x ! i)\<close> at
  interleaved position \<open>i\<close> for every \<open>i < length x\<close>, and the resource is unmapped again.
  And \<^verbatim>\<open>mapColors\<close> does return when the resource was unmapped, the buffer has room for
  the field and, in a debug build, the sizes agree.
\<close>

theorem mapColors_round_trip:
  assumes "lookup_resource rt h = Some (b, m)"
  shows "(\<forall>rt'. mapColors debug f x h rt = Inr rt' \<longrightarrow>
            (\<forall>i<length x. color_at rt' b i = Some (f (x ! i))) \<and>
            lookup_resource rt' h = Some (b, False)) \<and>
         (\<not> m \<and> lookup_buffer rt b = Some fs \<and> 3 * length x \<le> length fs \<and>
            (debug \<longrightarrow> length x = 4 * length fs div 3 div 4) \<longrightarrow>
          (\<exists>rt'. mapColors debug f x h rt = Inr rt'))"
  using mapColors_Inr [OF _ assms] mapColors_returns [of rt h b fs x debug f] assms
  by auto

theorem mapColors_round_trip_witness:
  "lookup_resource (snd drawn_1x1) 1 = Some (1, False) \<and>
   lookup_buffer (snd drawn_1x1) 1 = Some [Some 10, Some 11, Some 12] \<and>
   (\<exists>rt'. mapColors True gray [20] 1 (snd drawn_1x1) = Inr rt' \<and>
      color_at rt' 1 0 = Some (Color 20 21 22) \<and>
      lookup_resource rt' 1 = Some (1, False))"
proof -
  have reg: "lookup_resource (snd drawn_1x1) 1 = Some (1, False)"
    by (simp add: drawn_1x1_value lookup_resource_def)
  have buf: "lookup_buffer (snd drawn_1x1) 1 = Some [Some 10, Some 11, Some 12]"
    by (simp add: drawn_1x1_value lookup_buffer_def)
  note t = mapColors_round_trip [OF reg, where debug = True and f = gray and x = "[20]"
      and fs = "[Some 10, Some 11, Some 12]"]
  from t buf obtain rt' where r: "mapColors True gray [20] 1 (snd drawn_1x1) = Inr rt'"
    by auto
  with t have "color_at rt' 1 0 = Some (gray 20)" "lookup_resource rt' 1 = Some (1, False)"
    by auto
  with r reg buf show ?thesis
    by (simp add: gray_def)
qed

section \<open>Ownership of the shared buffer\<close>

lemma ownership_append:
  "ownership st (es1 @ es2) = (ownership st es1 \<and> ownership (foldl owner_step st es1) es2)"
  by (induction es1 arbitrary: st) auto

lemma owned_runI:
  assumes "trace rt' = trace rt @ evs" and "ownership (owner_of rt h) evs"
    and "foldl owner_step (owner_of rt h) evs = owner_of rt' h'"
  shows "owned_run h rt h' rt'"
  using assms by (simp add: owned_run_def new_events_def)

lemma owned_runD:
  assumes "owned_run h rt h' rt'"
  shows "\<exists>evs. trace rt' = trace rt @ evs \<and> new_events rt rt' = evs \<and>
    ownership (owner_of rt h) evs \<and> foldl owner_step (owner_of rt h) evs = owner_of rt' h'"
  using assms unfolding owned_run_def new_events_def
  by (metis append_take_drop_id)

lemma owned_run_refl: "owned_run h rt h rt"
  by (simp add: owned_run_def new_events_def)

lemma owned_run_trans:
  assumes "owned_run h rt h1 rt1" and "owned_run h1 rt1 h2 rt2"
  shows "owned_run h rt h2 rt2"
proof -
  from owned_runD [OF assms(1)] obtain e1 where e1: "trace rt1 = trace rt @ e1"
    "ownership (owner_of rt h) e1" "foldl owner_step (owner_of rt h) e1 = owner_of rt1 h1"
    by blast
  from owned_runD [OF assms(2)] obtain e2 where e2: "trace rt2 = trace rt1 @ e2"
    "ownership (owner_of rt1 h1) e2" "foldl owner_step (owner_of rt1 h1) e2 = owner_of rt2 h2"
    by blast
  show ?thesis
    by (rule owned_runI [where evs = "e1 @ e2"]) (simp_all add: e1 e2 ownership_append)
qed

lemma owner_of_log [simp]: "owner_of (log e rt) h = owner_of rt h"
  by (simp add: owner_of_def)

lemma owner_of_cong: "lookup_resource rt' h = lookup_resource rt h \<Longrightarrow> owner_of rt' h = owner_of rt h"
  by (simp add: owner_of_def)

lemma owned_run_log:
  assumes "neutral e" and "trace rt1 = trace rt" and "lookup_resource rt1 h = lookup_resource rt h"
  shows "owned_run h rt h (log e rt1)"
proof (rule owned_runI [where evs = "[e]"])
  show "trace (log e rt1) = trace rt @ [e]"
    using assms(2) by (simp add: log_def)
  show "ownership (owner_of rt h) [e]"
    using assms(1) by (simp add: neutral_def)
  show "foldl owner_step (owner_of rt h) [e] = owner_of (log e rt1) h"
    using assms(1) owner_of_cong [OF assms(3)] by (simp add: neutral_def)
qed

lemma neutral_simps [simp]:
  "neutral (GlGetBinding b)" "neutral (GlDeleteBuffers b)" "neutral (GlGenBuffers b)"
  "neutral (GlBindBuffer b)" "neutral (GlBufferData n ok)" "neutral (StdCout s)"
  "neutral StdCoutCudaErrorString" "neutral (CudaGetMappedPointer h ok)"
  "neutral CudaThreadSynchronize" "neutral GlfwSwapBuffers"
  by (simp_all add: neutral_def)

lemma trace_log [simp]: "trace (log e rt) = trace rt @ [e]"
  by (simp add: log_def)

lemma Unregister_trace:
  "trace (cudaGraphicsUnregisterResource h rt) =
     trace rt @ [CudaUnregister h (lookup_resource rt h \<noteq> None)]"
  by (auto simp: cudaGraphicsUnregisterResource_def split: option.splits)

lemma Unregister_lookup_resource:
  "lookup_resource (cudaGraphicsUnregisterResource h rt) h' =
     (if h' = h then None else lookup_resource rt h')"
  by (auto simp: cudaGraphicsUnregisterResource_def lookup_resource_def log_def delete_conv'
      split: option.splits)

lemma Unregister_owner: "owner_of (cudaGraphicsUnregisterResource h rt) h = Graphics"
  by (simp add: owner_of_def Unregister_lookup_resource)

lemma Unregister_owned: "owned_run h rt h (cudaGraphicsUnregisterResource h rt)"
proof (rule owned_runI [where evs = "[CudaUnregister h (lookup_resource rt h \<noteq> None)]"])
  show "trace (cudaGraphicsUnregisterResource h rt) =
      trace rt @ [CudaUnregister h (lookup_resource rt h \<noteq> None)]"
    by (rule Unregister_trace)
  show "ownership (owner_of rt h) [CudaUnregister h (lookup_resource rt h \<noteq> None)]"
    by simp
  show "foldl owner_step (owner_of rt h) [CudaUnregister h (lookup_resource rt h \<noteq> None)] =
      owner_of (cudaGraphicsUnregisterResource h rt) h"
  proof (cases "lookup_resource rt h")
    case None
    then have "owner_of rt h = Graphics"
      by (simp add: owner_of_def)
    then show ?thesis
      using None by (simp add: Unregister_owner)
  next
    case (Some a)
    then show ?thesis
      by (simp add: Unregister_owner)
  qed
qed


lemma gl_calls_keep_resources [simp]:
  "lookup_resource (snd (glGetIntegerv rt)) h = lookup_resource rt h"
  "lookup_resource (glDeleteBuffers b rt) h = lookup_resource rt h"
  "lookup_resource (snd (glGenBuffers rt)) h = lookup_resource rt h"
  "lookup_resource (glBindBuffer b rt) h = lookup_resource rt h"
  "lookup_resource (glBufferData n rt) h = lookup_resource rt h"
  "lookup_resource (glTexImage2D Nx Ny rt) h = lookup_resource rt h"
  "lookup_resource (glQuad rt) h = lookup_resource rt h"
  "lookup_resource (glfwSwapBuffers rt) h = lookup_resource rt h"
  by (simp_all add: glGetIntegerv_def glDeleteBuffers_def glGenBuffers_def glBindBuffer_def
      glBufferData_def glTexImage2D_def glQuad_def glfwSwapBuffers_def Let_def
      lookup_resource_def log_def split: option.splits prod.splits)

lemma glGetIntegerv_owned: "owned_run h rt h (snd (glGetIntegerv rt))"
  by (simp add: glGetIntegerv_def owned_run_log)

lemma glDeleteBuffers_owned: "owned_run h rt h (glDeleteBuffers b rt)"
  by (auto simp: glDeleteBuffers_def lookup_resource_def intro!: owned_run_log split: option.splits)

lemma glGenBuffers_owned: "owned_run h rt h (snd (glGenBuffers rt))"
  by (auto simp: glGenBuffers_def lookup_resource_def intro!: owned_run_log split: prod.splits)

lemma glBindBuffer_owned: "owned_run h rt h (glBindBuffer b rt)"
  by (auto simp: glBindBuffer_def lookup_resource_def intro!: owned_run_log)

lemma glBufferData_owned: "owned_run h rt h (glBufferData n rt)"
  by (auto simp: glBufferData_def Let_def lookup_resource_def intro!: owned_run_log)

lemma allocateGlBuffer_snd:
  "snd (allocateGlBuffer N rt) =
     glBufferData (unat N * 4) (glBindBuffer (fst (glGenBuffers rt)) (snd (glGenBuffers rt)))"
  by (simp add: allocateGlBuffer_def case_prod_unfold Let_def)

lemma allocateGlBuffer_keeps_resources [simp]:
  "lookup_resource (snd (allocateGlBuffer N rt)) h = lookup_resource rt h"
  by (simp add: allocateGlBuffer_snd)

lemma allocateGlBuffer_owned: "owned_run h rt h (snd (allocateGlBuffer N rt))"
  unfolding allocateGlBuffer_snd
  using glGenBuffers_owned glBindBuffer_owned glBufferData_owned
  by (blast intro: owned_run_trans)

lemma Register_trace:
  "trace (snd (cudaGraphicsGLRegisterBuffer b rt)) =
     trace rt @ [CudaRegister b (registered (fst (cudaGraphicsGLRegisterBuffer b rt)))]"
  by (simp add: cudaGraphicsGLRegisterBuffer_def Let_def registered_def split: prod.splits)

lemma Register_nonzero: "fst (cudaGraphicsGLRegisterBuffer b rt) \<noteq> Some NULL"
  using pick_fresh_nonzero [of "cuda_ptrs rt" "map fst (cuda_resources rt)"]
  by (auto simp: cudaGraphicsGLRegisterBuffer_def Let_def split: prod.splits)

lemma Register_lookup_resource:
  "lookup_resource (snd (cudaGraphicsGLRegisterBuffer b rt)) h =
     (if fst (cudaGraphicsGLRegisterBuffer b rt) = Some h then Some (b, False)
      else lookup_resource rt h)"
  using pick_fresh_nonzero [of "cuda_ptrs rt" "map fst (cuda_resources rt)"]
  by (auto simp: cudaGraphicsGLRegisterBuffer_def Let_def lookup_resource_def log_def
      update_conv' split: prod.splits)

lemma Register_owner:
  "owner_of (snd (cudaGraphicsGLRegisterBuffer b rt))
     (registered (fst (cudaGraphicsGLRegisterBuffer b rt))) = Graphics"
proof (cases "fst (cudaGraphicsGLRegisterBuffer b rt)")
  case None
  then show ?thesis
    by (simp add: registered_def owner_of_def lookup_resource_def)
next
  case (Some h')
  then show ?thesis
    by (simp add: registered_def owner_of_def Register_lookup_resource)
qed

lemma Register_owned:
  assumes "owner_of rt h = Graphics"
  shows "owned_run h rt (registered (fst (cudaGraphicsGLRegisterBuffer b rt)))
           (snd (cudaGraphicsGLRegisterBuffer b rt))"
proof (rule owned_runI [OF Register_trace])
  show "ownership (owner_of rt h)
      [CudaRegister b (registered (fst (cudaGraphicsGLRegisterBuffer b rt)))]"
    by simp
  show "foldl owner_step (owner_of rt h)
      [CudaRegister b (registered (fst (cudaGraphicsGLRegisterBuffer b rt)))] =
    owner_of (snd (cudaGraphicsGLRegisterBuffer b rt))
      (registered (fst (cudaGraphicsGLRegisterBuffer b rt)))"
    using assms by (simp add: Register_owner)
qed

lemma allocateCudaGlBuffer_unfold:
  "allocateCudaGlBuffer N rt =
     (let rt1 = snd (allocateGlBuffer N rt);
          reg = cudaGraphicsGLRegisterBuffer (fst (allocateGlBuffer N rt)) rt1
      in (registered (fst reg),
          if fst reg = None then log StdCoutCudaErrorString (snd reg) else snd reg))"
  by (simp add: allocateCudaGlBuffer_def Let_def case_prod_unfold registered_def
      split: option.splits)

lemma allocateCudaGlBuffer_owned:
  assumes "owner_of rt h = Graphics"
  shows "owned_run h rt (fst (allocateCudaGlBuffer N rt)) (snd (allocateCudaGlBuffer N rt))"
proof -
  define rt1 where "rt1 = snd (allocateGlBuffer N rt)"
  define reg where "reg = cudaGraphicsGLRegisterBuffer (fst (allocateGlBuffer N rt)) rt1"
  have 1: "owned_run h rt h rt1"
    unfolding rt1_def by (rule allocateGlBuffer_owned)
  have "owner_of rt1 h = Graphics"
    using assms owner_of_cong [of rt1 h rt] by (simp add: rt1_def)
  then have 2: "owned_run h rt1 (registered (fst reg)) (snd reg)"
    unfolding reg_def by (rule Register_owned)
  have 3: "owned_run (registered (fst reg)) (snd reg) (registered (fst reg))
      (log StdCoutCudaErrorString (snd reg))"
    by (rule owned_run_log) simp_all
  show ?thesis
    using 1 2 3
    by (auto simp: allocateCudaGlBuffer_unfold Let_def rt1_def [symmetric] reg_def [symmetric]
        intro: owned_run_trans)
qed

lemma allocateCudaGlBuffer_owner:
  "owner_of (snd (allocateCudaGlBuffer N rt)) (fst (allocateCudaGlBuffer N rt)) = Graphics"
  using Register_owner [of "fst (allocateGlBuffer N rt)" "snd (allocateGlBuffer N rt)"]
  by (auto simp: allocateCudaGlBuffer_unfold Let_def)


lemma Map_trace:
  "trace (cudaGraphicsMapResources h rt) =
     trace rt @ [CudaMap h (\<exists>b. lookup_resource rt h = Some (b, False) \<and> lookup_buffer rt b \<noteq> None)]"
  by (auto simp: cudaGraphicsMapResources_def split: option.splits)

lemma Map_owned: "owned_run h rt h (cudaGraphicsMapResources h rt)"
proof (rule owned_runI [OF Map_trace])
  let ?ok = "\<exists>b. lookup_resource rt h = Some (b, False) \<and> lookup_buffer rt b \<noteq> None"
  show "ownership (owner_of rt h) [CudaMap h ?ok]"
    by simp
  show "foldl owner_step (owner_of rt h) [CudaMap h ?ok] =
      owner_of (cudaGraphicsMapResources h rt) h"
    by (cases "lookup_resource rt h") (auto simp: owner_of_def Map_lookup_resource)
qed

lemma GetMappedPointer_trace:
  "trace (snd (cudaGraphicsResourceGetMappedPointer h rt)) =
     trace rt @ [CudaGetMappedPointer h (fst (cudaGraphicsResourceGetMappedPointer h rt) \<noteq> None)]"
  by (auto simp: cudaGraphicsResourceGetMappedPointer_def split: option.splits)

lemma GetMappedPointer_owned:
  "owned_run h rt h (snd (cudaGraphicsResourceGetMappedPointer h rt))"
proof (rule owned_runI [OF GetMappedPointer_trace])
  show "ownership (owner_of rt h)
      [CudaGetMappedPointer h (fst (cudaGraphicsResourceGetMappedPointer h rt) \<noteq> None)]"
    by simp
  show "foldl owner_step (owner_of rt h)
      [CudaGetMappedPointer h (fst (cudaGraphicsResourceGetMappedPointer h rt) \<noteq> None)] =
    owner_of (snd (cudaGraphicsResourceGetMappedPointer h rt)) h"
    by (simp add: owner_of_def)
qed

lemma GetMappedPointer_owner:
  "fst (cudaGraphicsResourceGetMappedPointer h rt) \<noteq> None \<Longrightarrow>
   owner_of (snd (cudaGraphicsResourceGetMappedPointer h rt)) h = Compute"
  by (auto simp: GetMappedPointer_fst owner_of_def split: option.splits if_splits)

lemma device_write_trace:
  "lookup_buffer rt b = Some fs \<Longrightarrow> trace (device_write b i c rt) = trace rt @ [DeviceWrite b i]"
  by (simp add: device_write_def)

lemma thrust_transform_owned:
  assumes "p \<noteq> None \<Longrightarrow> owner_of rt h = Compute"
  shows "owned_run h rt h (final (thrust_transform f x p i rt))"
  using assms
proof (induction x arbitrary: i rt)
  case Nil
  then show ?case by (simp add: owned_run_refl)
next
  case (Cons v vs)
  show ?case
  proof (cases p)
    case None
    then show ?thesis by (simp add: owned_run_refl)
  next
    case (Some bn)
    obtain b n where bn: "bn = (b, n)" by (cases bn)
    have own: "owner_of rt h = Compute"
      using Cons.prems Some by simp
    show ?thesis
    proof (cases "lookup_buffer rt b")
      case None
      then show ?thesis
        using \<open>p = Some bn\<close> bn by (simp add: owned_run_refl)
    next
      case (Some fs)
      show ?thesis
      proof (cases "3 * i + 3 \<le> length fs")
        case True
        let ?rt1 = "device_write b i (f v) rt"
        have own1: "owner_of ?rt1 h = Compute"
          using own by (simp add: owner_of_def)
        have "owned_run h rt h ?rt1"
          by (rule owned_runI [OF device_write_trace [OF Some]]) (simp_all add: own own1)
        moreover have "owned_run h ?rt1 h (final (thrust_transform f vs p (Suc i) ?rt1))"
          using own1 by (intro Cons.IH) simp
        ultimately show ?thesis
          using \<open>p = Some bn\<close> bn Some True by (simp add: owned_run_trans)
      next
        case False
        then show ?thesis
          using \<open>p = Some bn\<close> bn Some by (simp add: owned_run_refl)
      qed
    qed
  qed
qed

lemma Synchronize_owned: "owned_run h rt h (cudaThreadSynchronize rt)"
  by (simp add: cudaThreadSynchronize_def owned_run_log)

lemma Unmap_trace:
  "trace (cudaGraphicsUnmapResources h rt) =
     trace rt @ [CudaUnmap h (\<exists>b. lookup_resource rt h = Some (b, True))]"
  by (auto simp: cudaGraphicsUnmapResources_def split: option.splits)

lemma Unmap_owner: "owner_of (cudaGraphicsUnmapResources h rt) h = Graphics"
  by (simp add: owner_of_def Unmap_lookup_resource split: option.splits)

lemma Unmap_owned: "owned_run h rt h (cudaGraphicsUnmapResources h rt)"
proof (rule owned_runI [OF Unmap_trace])
  let ?ok = "\<exists>b. lookup_resource rt h = Some (b, True)"
  show "ownership (owner_of rt h) [CudaUnmap h ?ok]"
    by simp
  have "\<not> ?ok \<Longrightarrow> owner_of rt h = Graphics"
    by (auto simp: owner_of_def split: option.splits bool.splits)
  then show "foldl owner_step (owner_of rt h) [CudaUnmap h ?ok] =
      owner_of (cudaGraphicsUnmapResources h rt) h"
    by (auto simp: Unmap_owner)
qed

lemma mapColors_owned: "owned_run h rt h (final (mapColors debug f x h rt))"
proof -
  define rt1 where "rt1 = cudaGraphicsMapResources h rt"
  define p where "p = fst (cudaGraphicsResourceGetMappedPointer h rt1)"
  define rt2 where "rt2 = snd (cudaGraphicsResourceGetMappedPointer h rt1)"
  define rt3 where "rt3 = final (thrust_transform f x p 0 rt2)"
  have 2: "owned_run h rt h rt2"
    unfolding rt2_def rt1_def using Map_owned GetMappedPointer_owned
    by (blast intro: owned_run_trans)
  have "p \<noteq> None \<Longrightarrow> owner_of rt2 h = Compute"
    unfolding p_def rt2_def by (rule GetMappedPointer_owner)
  then have "owned_run h rt2 h rt3"
    unfolding rt3_def by (rule thrust_transform_owned)
  with 2 have 3: "owned_run h rt h rt3"
    by (rule owned_run_trans)
  have 4: "owned_run h rt h (cudaGraphicsUnmapResources h (cudaThreadSynchronize rt3))"
    using 3 Synchronize_owned Unmap_owned by (blast intro: owned_run_trans)
  show ?thesis
    using 2 3 4
    by (auto simp: mapColors_unfold Let_def rt1_def [symmetric] p_def [symmetric]
        rt2_def [symmetric] rt3_def split: sum.splits)
qed

lemma mapColors_owner:
  "mapColors debug f x h rt = Inr rt' \<Longrightarrow> owner_of rt' h = Graphics"
  by (auto simp: mapColors_unfold Let_def Unmap_owner split: if_splits sum.splits)

lemma present_owned:
  assumes "owner_of rt h = Graphics"
  shows "owned_run h rt h (glfwSwapBuffers (glQuad (glTexImage2D Nx Ny rt)))"
proof (rule owned_runI [where evs = "[GlTexImage2D Nx Ny, GlQuad, GlfwSwapBuffers]"])
  show "trace (glfwSwapBuffers (glQuad (glTexImage2D Nx Ny rt))) =
      trace rt @ [GlTexImage2D Nx Ny, GlQuad, GlfwSwapBuffers]"
    by (simp add: glfwSwapBuffers_def glQuad_def glTexImage2D_def)
  show "ownership (owner_of rt h) [GlTexImage2D Nx Ny, GlQuad, GlfwSwapBuffers]"
    using assms by simp
  show "foldl owner_step (owner_of rt h) [GlTexImage2D Nx Ny, GlQuad, GlfwSwapBuffers] =
      owner_of (glfwSwapBuffers (glQuad (glTexImage2D Nx Ny rt))) h"
    by (simp add: owner_of_def)
qed


lemma draw_realloc_unfold:
  "draw_realloc Nx Ny s =
     (let rt2 = log (StdCout ''Allocate resources for drawing!\<newline>'')
                  (cudaGraphicsUnregisterResource (resource (fst s)) (snd s));
          rt4 = glDeleteBuffers (fst (glGetIntegerv rt2)) (snd (glGetIntegerv rt2));
          a = allocateCudaGlBuffer (3 * Nx * Ny) rt4;
          g = glGetIntegerv (snd a)
      in (\<lparr>bufferID = fst g, resource = fst a, Nx_mem = Nx, Ny_mem = Ny\<rparr>, snd g))"
  by (cases s) (simp add: draw_realloc_def Let_def case_prod_unfold)

lemma draw_realloc_owned:
  "owned_run (resource (fst s)) (snd s) (resource (fst (draw_realloc Nx Ny s)))
     (snd (draw_realloc Nx Ny s)) \<and>
   owner_of (snd (draw_realloc Nx Ny s)) (resource (fst (draw_realloc Nx Ny s))) = Graphics"
proof -
  define h where "h = resource (fst s)"
  define rt1 where "rt1 = cudaGraphicsUnregisterResource h (snd s)"
  define rt2 where "rt2 = log (StdCout ''Allocate resources for drawing!\<newline>'') rt1"
  define rt4 where "rt4 = glDeleteBuffers (fst (glGetIntegerv rt2)) (snd (glGetIntegerv rt2))"
  define a where "a = allocateCudaGlBuffer (3 * Nx * Ny) rt4"
  define g where "g = glGetIntegerv (snd a)"
  have r: "draw_realloc Nx Ny s =
      (\<lparr>bufferID = fst g, resource = fst a, Nx_mem = Nx, Ny_mem = Ny\<rparr>, snd g)"
    by (simp add: draw_realloc_unfold Let_def g_def a_def rt4_def rt2_def rt1_def h_def)
  have 1: "owned_run h (snd s) h rt1"
    unfolding rt1_def by (rule Unregister_owned)
  have "owned_run h rt1 h rt2"
    unfolding rt2_def by (rule owned_run_log) simp_all
  moreover have "owned_run h rt2 h rt4"
    unfolding rt4_def using glGetIntegerv_owned glDeleteBuffers_owned
    by (blast intro: owned_run_trans)
  ultimately have 4: "owned_run h (snd s) h rt4"
    using 1 by (blast intro: owned_run_trans)
  have "owner_of rt1 h = Graphics"
    unfolding rt1_def by (rule Unregister_owner)
  then have "owner_of rt4 h = Graphics"
    using owner_of_cong [of rt4 h rt1] by (simp add: rt4_def rt2_def)
  then have "owned_run h rt4 (fst a) (snd a)"
    unfolding a_def by (rule allocateCudaGlBuffer_owned)
  moreover have "owned_run (fst a) (snd a) (fst a) (snd g)"
    unfolding g_def by (rule glGetIntegerv_owned)
  ultimately have 6: "owned_run h (snd s) (fst a) (snd g)"
    using 4 by (blast intro: owned_run_trans)
  have "owner_of (snd a) (fst a) = Graphics"
    unfolding a_def by (rule allocateCudaGlBuffer_owner)
  then have "owner_of (snd g) (fst a) = Graphics"
    using owner_of_cong [of "snd g" "fst a" "snd a"] by (simp add: g_def)
  then show ?thesis
    using 6 by (simp add: r h_def)
qed

lemma draw_unfold:
  "draw debug f x Nx Ny s =
     (let s1 = (if Nx \<noteq> Nx_mem (fst s) \<or> Ny \<noteq> Ny_mem (fst s) then draw_realloc Nx Ny s else s)
      in case mapColors debug f x (resource (fst s1)) (snd s1) of
           Inl (e, rt2) \<Rightarrow> Inl (e, fst s1, rt2)
         | Inr rt2 \<Rightarrow> Inr (fst s1, glfwSwapBuffers (glQuad (glTexImage2D Nx Ny rt2))))"
  by (simp add: draw_def Let_def case_prod_unfold)

lemma draw_final:
  "final (draw debug f x Nx Ny s) =
     (let s1 = (if Nx \<noteq> Nx_mem (fst s) \<or> Ny \<noteq> Ny_mem (fst s) then draw_realloc Nx Ny s else s)
      in (fst s1,
          case mapColors debug f x (resource (fst s1)) (snd s1) of
            Inl (e, rt2) \<Rightarrow> rt2
          | Inr rt2 \<Rightarrow> glfwSwapBuffers (glQuad (glTexImage2D Nx Ny rt2))))"
  by (simp add: draw_unfold Let_def split: sum.splits)

lemma draw_owned:
  "owned_run (resource (fst s)) (snd s) (resource (fst (final (draw debug f x Nx Ny s))))
     (snd (final (draw debug f x Nx Ny s)))"
proof -
  define s1 where
    "s1 = (if Nx \<noteq> Nx_mem (fst s) \<or> Ny \<noteq> Ny_mem (fst s) then draw_realloc Nx Ny s else s)"
  define h1 where "h1 = resource (fst s1)"
  have 1: "owned_run (resource (fst s)) (snd s) h1 (snd s1)"
    using draw_realloc_owned [of s Nx Ny] by (simp add: s1_def h1_def owned_run_refl)
  have m: "owned_run h1 (snd s1) h1 (final (mapColors debug f x h1 (snd s1)))"
    by (rule mapColors_owned)
  have eq: "final (draw debug f x Nx Ny s) =
      (fst s1,
       case mapColors debug f x h1 (snd s1) of
         Inl (e, rt2) \<Rightarrow> rt2
       | Inr rt2 \<Rightarrow> glfwSwapBuffers (glQuad (glTexImage2D Nx Ny rt2)))"
    by (simp add: draw_final s1_def h1_def Let_def)
  show ?thesis
  proof (cases "mapColors debug f x h1 (snd s1)")
    case (Inl a)
    then show ?thesis
      using 1 m
      by (cases a) (auto simp: eq h1_def [symmetric] intro: owned_run_trans)
  next
    case (Inr rt2)
    then have "owner_of rt2 h1 = Graphics"
      by (rule mapColors_owner)
    then have "owned_run h1 rt2 h1 (glfwSwapBuffers (glQuad (glTexImage2D Nx Ny rt2)))"
      by (rule present_owned)
    then show ?thesis
      using 1 m Inr
      by (auto simp: eq h1_def [symmetric] intro: owned_run_trans)
  qed
qed

lemma draw_returns_owner:
  assumes "draw debug f x Nx Ny s = Inr r"
  shows "owner_of (snd r) (resource (fst r)) = Graphics"
  using assms mapColors_owner
  by (fastforce simp: draw_unfold Let_def owner_of_def split: sum.splits)

text \<open>
  C2.  During any \<^verbatim>\<open>draw\<close> the shared buffer has one owner at a time: replayed from the
  owner at entry, the calls of \<^verbatim>\<open>draw\<close> write to the buffer only while the resource is
  mapped (between a successful map and the unmap), and upload the texture and draw the
  quad only while it is not; when \<^verbatim>\<open>draw\<close> returns, the buffer is with the graphics
  runtime.  This holds for every state, every input, and also for a run that faults.
\<close>

theorem draw_ownership:
  assumes "s' = final (draw debug f x Nx Ny s)"
  shows "take (length (trace (snd s))) (trace (snd s')) = trace (snd s) \<and>
    ownership (owner_of (snd s) (resource (fst s))) (new_events (snd s) (snd s')) \<and>
    (\<forall>r. draw debug f x Nx Ny s = Inr r \<longrightarrow> owner_of (snd r) (resource (fst r)) = Graphics)"
  using draw_owned [of s debug f x Nx Ny] draw_returns_owner [of debug f x Nx Ny s] assms
  by (simp add: owned_run_def)

theorem draw_ownership_witness:
  "draw False gray [10] 1 1 booted = Inr drawn_1x1 \<and>
   owner_of (snd booted) (resource (fst booted)) = Graphics \<and>
   new_events (snd booted) (snd drawn_1x1) =
     [CudaUnregister NULL False, StdCout ''Allocate resources for drawing!\<newline>'', GlGetBinding 0,
      GlDeleteBuffers 0, GlGenBuffers 1, GlBindBuffer 1, GlBufferData 12 True,
      CudaRegister 1 1, GlGetBinding 1, CudaMap 1 True, CudaGetMappedPointer 1 True,
      DeviceWrite 1 0, CudaThreadSynchronize, CudaUnmap 1 True, GlTexImage2D 1 1,
      GlQuad, GlfwSwapBuffers] \<and>
   ownership Graphics (new_events (snd booted) (snd drawn_1x1)) \<and>
   owner_of (snd drawn_1x1) (resource (fst drawn_1x1)) = Graphics"
proof -
  have o: "owner_of (snd booted) (resource (fst booted)) = Graphics"
    by (simp add: booted_value owner_of_def lookup_resource_def)
  have e: "new_events (snd booted) (snd drawn_1x1) =
     [CudaUnregister NULL False, StdCout ''Allocate resources for drawing!\<newline>'', GlGetBinding 0,
      GlDeleteBuffers 0, GlGenBuffers 1, GlBindBuffer 1, GlBufferData 12 True,
      CudaRegister 1 1, GlGetBinding 1, CudaMap 1 True, CudaGetMappedPointer 1 True,
      DeviceWrite 1 0, CudaThreadSynchronize, CudaUnmap 1 True, GlTexImage2D 1 1,
      GlQuad, GlfwSwapBuffers]"
    by (simp add: booted_value drawn_1x1_value new_events_def)
  have ow: "ownership Graphics (new_events (snd booted) (snd drawn_1x1))"
    using draw_ownership [OF drawn_1x1_def] o by simp
  have "owner_of (snd drawn_1x1) (resource (fst drawn_1x1)) = Graphics"
    using draw_ownership [OF drawn_1x1_def] drawn_1x1_returns by blast
  then show ?thesis
    using drawn_1x1_returns o e ow by blast
qed



section \<open>The first draw with zero dimensions\<close>

lemma mapColors_first_event:
  "\<exists>evs. trace (final (mapColors debug f x h rt)) =
     trace rt @ CudaMap h (\<exists>b. lookup_resource rt h = Some (b, False) \<and>
       lookup_buffer rt b \<noteq> None) # evs"
proof -
  let ?rt1 = "cudaGraphicsMapResources h rt"
  let ?p = "fst (cudaGraphicsResourceGetMappedPointer h ?rt1)"
  let ?rt2 = "snd (cudaGraphicsResourceGetMappedPointer h ?rt1)"
  let ?T = "\<lambda>e. True"
  have 2: "extends_with ?T ?rt1 ?rt2"
    by (rule cudaGraphicsResourceGetMappedPointer_extends) simp
  have 3: "extends_with ?T ?rt1 (final (thrust_transform f x ?p 0 ?rt2))"
    using 2 thrust_transform_extends [where P = ?T and rt = ?rt2]
    by (blast intro: extends_with_trans)
  have 4: "extends_with ?T ?rt1 (cudaGraphicsUnmapResources h (cudaThreadSynchronize rt3))"
    if "extends_with ?T ?rt1 rt3" for rt3
    using that cudaThreadSynchronize_extends [of ?T rt3]
      cudaGraphicsUnmapResources_extends [of ?T h "cudaThreadSynchronize rt3"]
    by (blast intro: extends_with_trans)
  have "extends_with ?T ?rt1 (final (mapColors debug f x h rt))"
    using 2 3 4 by (auto simp: mapColors_unfold Let_def split: sum.splits)
  then obtain evs where "trace (final (mapColors debug f x h rt)) = trace ?rt1 @ evs"
    using extends_withD by blast
  then show ?thesis
    by (simp add: Map_trace)
qed

text \<open>
  C10.  On a freshly constructed window, \<^verbatim>\<open>draw\<close> with \<open>Nx = 0\<close> and \<open>Ny = 0\<close> does not
  enter the dimension-change branch (the recorded dimensions start at \<open>(0,0)\<close>): it is
  \<^verbatim>\<open>mapColors\<close> on the \<^verbatim>\<open>NULL\<close> handle of the constructor followed by the presentation, it
  issues no call that releases or creates a buffer or a registration, and its first call
  is the (failing) mapping of \<^verbatim>\<open>NULL\<close>.
\<close>

theorem first_draw_zero_dimensions:
  assumes "s = DeviceWindow_ctor width height rt"
    and "s' = final (draw debug f x 0 0 s)"
  shows "resource (fst s) = NULL \<and> Nx_mem (fst s) = 0 \<and> Ny_mem (fst s) = 0 \<and>
    draw debug f x 0 0 s =
      (case mapColors debug f x NULL (snd s) of
         Inl (e, rt2) \<Rightarrow> Inl (e, fst s, rt2)
       | Inr rt2 \<Rightarrow> Inr (fst s, glfwSwapBuffers (glQuad (glTexImage2D 0 0 rt2)))) \<and>
    extends_with (\<lambda>e. \<not> is_realloc_event e) (snd s) (snd s') \<and>
    take 1 (new_events (snd s) (snd s')) = [CudaMap NULL False]"
proof -
  have w: "resource (fst s) = NULL" "Nx_mem (fst s) = 0" "Ny_mem (fst s) = 0"
    by (simp_all add: assms(1) DeviceWindow_ctor_def)
  have d: "draw debug f x 0 0 s =
      (case mapColors debug f x NULL (snd s) of
         Inl (e, rt2) \<Rightarrow> Inl (e, fst s, rt2)
       | Inr rt2 \<Rightarrow> Inr (fst s, glfwSwapBuffers (glQuad (glTexImage2D 0 0 rt2))))"
    using w by (simp add: draw_unfold)
  have e: "extends_with (\<lambda>e. \<not> is_realloc_event e) (snd s) (snd s')"
    unfolding assms(2) using w(2,3) by (intro draw_same_dims_extends) simp_all
  have "snd s' = final (mapColors debug f x NULL (snd s)) \<or>
      (\<exists>rt2. mapColors debug f x NULL (snd s) = Inr rt2 \<and>
         snd s' = glfwSwapBuffers (glQuad (glTexImage2D 0 0 rt2)))"
    unfolding assms(2) d by (auto split: sum.splits)
  then have "\<exists>evs. trace (snd s') = trace (final (mapColors debug f x NULL (snd s))) @ evs"
    by (auto simp: glfwSwapBuffers_def glQuad_def glTexImage2D_def)
  moreover have "\<exists>evs. trace (final (mapColors debug f x NULL (snd s))) =
      trace (snd s) @ CudaMap NULL False # evs"
    using mapColors_first_event [of debug f x NULL "snd s"]
    by (simp add: lookup_resource_def)
  ultimately have "take 1 (new_events (snd s) (snd s')) = [CudaMap NULL False]"
    by (auto simp: new_events_def)
  then show ?thesis
    using w d e by simp
qed

theorem first_draw_zero_dimensions_witness:
  "resource (fst booted) = NULL \<and>
   draw False gray [] 0 0 booted =
     Inr (fst booted,
       \<lparr>gl_buffers = [], gl_unpack_binding = 0, cuda_resources = [], gl_names = [],
        gl_data_ok = [], cuda_register_ok = [], cuda_ptrs = [],
        trace = [GlfwOpenWindow 800 600, CudaMap NULL False, CudaGetMappedPointer NULL False,
          CudaThreadSynchronize, CudaUnmap NULL False, GlTexImage2D 0 0, GlQuad,
          GlfwSwapBuffers]\<rparr>) \<and>
   take 1 (new_events (snd booted) (snd (final (draw False gray [] 0 0 booted)))) =
     [CudaMap NULL False]"
proof -
  have "draw False gray [] 0 0 booted =
     Inr (fst booted,
       \<lparr>gl_buffers = [], gl_unpack_binding = 0, cuda_resources = [], gl_names = [],
        gl_data_ok = [], cuda_register_ok = [], cuda_ptrs = [],
        trace = [GlfwOpenWindow 800 600, CudaMap NULL False, CudaGetMappedPointer NULL False,
          CudaThreadSynchronize, CudaUnmap NULL False, GlTexImage2D 0 0, GlQuad,
          GlfwSwapBuffers]\<rparr>)"
    by (simp add: booted_value example_defs)
  then show ?thesis
    using first_draw_zero_dimensions [OF booted_def refl, of False gray "[]"]
    by (simp add: new_events_def) (simp add: booted_value)
qed

section \<open>Allocation and release\<close>

lemma fold_max_ge: "n \<in> set used \<Longrightarrow> n \<le> fold max used (m::nat)"
proof (induction used arbitrary: m)
  case Nil
  then show ?case by simp
next
  case (Cons u us)
  have mono: "a \<le> fold max us a" for a :: nat
    by (induction us arbitrary: a) (auto intro: order_trans [OF max.cobounded2])
  show ?case
  proof (cases "n = u")
    case True
    then show ?thesis
      using mono [of "max u m"] by simp
  next
    case False
    then show ?thesis
      using Cons by simp
  qed
qed

lemma pick_fresh_unused: "fst (pick_fresh ns used) \<notin> set used"
proof (induction ns)
  case Nil
  show ?case
    using fold_max_ge [of "Suc (fold max used 0)" used 0] by auto
next
  case (Cons n ns)
  then show ?case by simp
qed

subsection \<open>The allocator, call by call\<close>

lemma glGenBuffers_facts:
  "fst (glGenBuffers rt) \<noteq> 0"
  "map_of (gl_buffers rt) (fst (glGenBuffers rt)) = None"
  "trace (snd (glGenBuffers rt)) = trace rt @ [GlGenBuffers (fst (glGenBuffers rt))]"
  "gl_buffers (snd (glGenBuffers rt)) = gl_buffers rt"
  "gl_unpack_binding (snd (glGenBuffers rt)) = gl_unpack_binding rt"
  "gl_data_ok (snd (glGenBuffers rt)) = gl_data_ok rt"
  "cuda_register_ok (snd (glGenBuffers rt)) = cuda_register_ok rt"
  "cuda_resources (snd (glGenBuffers rt)) = cuda_resources rt"
  "cuda_ptrs (snd (glGenBuffers rt)) = cuda_ptrs rt"
  using pick_fresh_nonzero [of "gl_names rt" "map fst (gl_buffers rt)"]
    pick_fresh_unused [of "gl_names rt" "map fst (gl_buffers rt)"]
  by (auto simp: glGenBuffers_def log_def case_prod_unfold Let_def map_of_eq_None_iff)

lemma allocateGlBuffer_fst: "fst (allocateGlBuffer N rt) = fst (glGenBuffers rt)"
  by (simp add: allocateGlBuffer_def case_prod_unfold Let_def)

lemma allocateGlBuffer_facts:
  "trace (snd (allocateGlBuffer N rt)) =
     trace rt @ [GlGenBuffers (fst (glGenBuffers rt)), GlBindBuffer (fst (glGenBuffers rt)),
                 GlBufferData (unat N * 4) (next_ok (gl_data_ok rt))]"
  "gl_unpack_binding (snd (allocateGlBuffer N rt)) = fst (glGenBuffers rt)"
  "lookup_buffer (snd (allocateGlBuffer N rt)) b =
     (if b = fst (glGenBuffers rt)
      then Some (if next_ok (gl_data_ok rt) then replicate (unat N) None else [])
      else lookup_buffer rt b)"
  "cuda_register_ok (snd (allocateGlBuffer N rt)) = cuda_register_ok rt"
  "cuda_resources (snd (allocateGlBuffer N rt)) = cuda_resources rt"
  "cuda_ptrs (snd (allocateGlBuffer N rt)) = cuda_ptrs rt"
  using glGenBuffers_facts(1,2) [of rt]
  by (auto simp: allocateGlBuffer_snd glBufferData_def glBindBuffer_def Let_def log_def
      glGenBuffers_facts lookup_buffer_def update_conv')

lemma Register_fst:
  "fst (cudaGraphicsGLRegisterBuffer b rt) =
     (if next_ok (cuda_register_ok rt)
      then Some (fst (pick_fresh (cuda_ptrs rt) (map fst (cuda_resources rt)))) else None)"
  by (simp add: cudaGraphicsGLRegisterBuffer_def Let_def case_prod_unfold)

lemma Register_frame:
  "gl_buffers (snd (cudaGraphicsGLRegisterBuffer b rt)) = gl_buffers rt"
  "gl_unpack_binding (snd (cudaGraphicsGLRegisterBuffer b rt)) = gl_unpack_binding rt"
  by (simp_all add: cudaGraphicsGLRegisterBuffer_def Let_def case_prod_unfold log_def)

lemma allocateCudaGlBuffer_fst:
  "fst (allocateCudaGlBuffer N rt) =
     (if next_ok (cuda_register_ok rt)
      then fst (pick_fresh (cuda_ptrs rt) (map fst (cuda_resources rt))) else NULL)"
  by (simp add: allocateCudaGlBuffer_unfold Let_def Register_fst registered_def
      allocateGlBuffer_facts)

lemma allocateCudaGlBuffer_NULL:
  "fst (allocateCudaGlBuffer N rt) = NULL \<longleftrightarrow> \<not> next_ok (cuda_register_ok rt)"
  using pick_fresh_nonzero [of "cuda_ptrs rt" "map fst (cuda_resources rt)"]
  by (simp add: allocateCudaGlBuffer_fst)

lemma allocateCudaGlBuffer_fresh:
  "lookup_resource rt (fst (allocateCudaGlBuffer N rt)) = None"
  using pick_fresh_unused [of "cuda_ptrs rt" "map fst (cuda_resources rt)"]
  by (simp add: allocateCudaGlBuffer_fst lookup_resource_def map_of_eq_None_iff)

lemma allocateCudaGlBuffer_facts:
  "trace (snd (allocateCudaGlBuffer N rt)) =
     trace rt @ [GlGenBuffers (fst (glGenBuffers rt)), GlBindBuffer (fst (glGenBuffers rt)),
                 GlBufferData (unat N * 4) (next_ok (gl_data_ok rt)),
                 CudaRegister (fst (glGenBuffers rt)) (fst (allocateCudaGlBuffer N rt))] @
       (if next_ok (cuda_register_ok rt) then [] else [StdCoutCudaErrorString])"
  "gl_unpack_binding (snd (allocateCudaGlBuffer N rt)) = fst (glGenBuffers rt)"
  "lookup_buffer (snd (allocateCudaGlBuffer N rt)) b =
     (if b = fst (glGenBuffers rt)
      then Some (if next_ok (gl_data_ok rt) then replicate (unat N) None else [])
      else lookup_buffer rt b)"
  "lookup_resource (snd (allocateCudaGlBuffer N rt)) h =
     (if next_ok (cuda_register_ok rt) \<and> h = fst (allocateCudaGlBuffer N rt)
      then Some (fst (glGenBuffers rt), False) else lookup_resource rt h)"
proof -
  let ?rt1 = "snd (allocateGlBuffer N rt)"
  let ?b = "fst (glGenBuffers rt)"
  let ?reg = "cudaGraphicsGLRegisterBuffer ?b ?rt1"
  have fst_reg: "fst ?reg = None \<longleftrightarrow> \<not> next_ok (cuda_register_ok rt)"
    by (simp add: Register_fst allocateGlBuffer_facts)
  have res: "registered (fst ?reg) = fst (allocateCudaGlBuffer N rt)"
    by (simp add: allocateCudaGlBuffer_unfold Let_def allocateGlBuffer_fst)
  show "trace (snd (allocateCudaGlBuffer N rt)) =
     trace rt @ [GlGenBuffers ?b, GlBindBuffer ?b,
                 GlBufferData (unat N * 4) (next_ok (gl_data_ok rt)),
                 CudaRegister ?b (fst (allocateCudaGlBuffer N rt))] @
       (if next_ok (cuda_register_ok rt) then [] else [StdCoutCudaErrorString])"
    using fst_reg res
    by (simp add: allocateCudaGlBuffer_unfold Let_def allocateGlBuffer_fst Register_trace
        allocateGlBuffer_facts)
  show "gl_unpack_binding (snd (allocateCudaGlBuffer N rt)) = ?b"
    by (simp add: allocateCudaGlBuffer_unfold Let_def allocateGlBuffer_fst Register_frame
        allocateGlBuffer_facts log_def)
  have lb: "lookup_buffer (snd ?reg) b' = lookup_buffer ?rt1 b'" for b'
    by (simp add: lookup_buffer_def Register_frame)
  show "lookup_buffer (snd (allocateCudaGlBuffer N rt)) b =
     (if b = ?b
      then Some (if next_ok (gl_data_ok rt) then replicate (unat N) None else [])
      else lookup_buffer rt b)"
    by (simp add: allocateCudaGlBuffer_unfold Let_def allocateGlBuffer_fst lb
        allocateGlBuffer_facts)
  show "lookup_resource (snd (allocateCudaGlBuffer N rt)) h =
     (if next_ok (cuda_register_ok rt) \<and> h = fst (allocateCudaGlBuffer N rt)
      then Some (?b, False) else lookup_resource rt h)"
    using fst_reg res
    by (auto simp: allocateCudaGlBuffer_unfold Let_def allocateGlBuffer_fst
        Register_lookup_resource registered_def split: option.splits)
qed

lemma log_frame [simp]:
  "gl_buffers (log e rt) = gl_buffers rt"
  "gl_unpack_binding (log e rt) = gl_unpack_binding rt"
  "cuda_resources (log e rt) = cuda_resources rt"
  "gl_data_ok (log e rt) = gl_data_ok rt"
  "cuda_register_ok (log e rt) = cuda_register_ok rt"
  by (simp_all add: log_def)

lemma Unregister_frame:
  "gl_buffers (cudaGraphicsUnregisterResource h rt) = gl_buffers rt"
  "gl_unpack_binding (cudaGraphicsUnregisterResource h rt) = gl_unpack_binding rt"
  "gl_data_ok (cudaGraphicsUnregisterResource h rt) = gl_data_ok rt"
  "cuda_register_ok (cudaGraphicsUnregisterResource h rt) = cuda_register_ok rt"
  "lookup_buffer (cudaGraphicsUnregisterResource h rt) b = lookup_buffer rt b"
  by (simp_all add: cudaGraphicsUnregisterResource_def log_def lookup_buffer_def
      split: option.splits)

lemma glGetIntegerv_simps [simp]:
  "fst (glGetIntegerv rt) = gl_unpack_binding rt"
  "snd (glGetIntegerv rt) = log (GlGetBinding (gl_unpack_binding rt)) rt"
  by (simp_all add: glGetIntegerv_def)

lemma glDeleteBuffers_facts:
  "trace (glDeleteBuffers b rt) = trace rt @ [GlDeleteBuffers b]"
  "lookup_buffer (glDeleteBuffers b rt) b' = (if b' = b then None else lookup_buffer rt b')"
  "gl_data_ok (glDeleteBuffers b rt) = gl_data_ok rt"
  "cuda_register_ok (glDeleteBuffers b rt) = cuda_register_ok rt"
  by (auto simp: glDeleteBuffers_def log_def lookup_buffer_def delete_conv' split: option.splits)

lemma released_facts:
  "trace (released s) =
     trace (snd s) @
       [CudaUnregister (resource (fst s)) (lookup_resource (snd s) (resource (fst s)) \<noteq> None),
        StdCout ''Allocate resources for drawing!\<newline>'',
        GlGetBinding (gl_unpack_binding (snd s)), GlDeleteBuffers (gl_unpack_binding (snd s))]"
  "lookup_resource (released s) h =
     (if h = resource (fst s) then None else lookup_resource (snd s) h)"
  "lookup_buffer (released s) b =
     (if b = gl_unpack_binding (snd s) then None else lookup_buffer (snd s) b)"
  "gl_data_ok (released s) = gl_data_ok (snd s)"
  "cuda_register_ok (released s) = cuda_register_ok (snd s)"
  by (simp_all add: released_def Let_def glDeleteBuffers_facts
      Unregister_trace Unregister_lookup_resource Unregister_frame)

lemma draw_realloc_released:
  "draw_realloc Nx Ny s =
     (\<lparr>bufferID = fst (glGenBuffers (released s)),
       resource = fst (allocateCudaGlBuffer (3 * Nx * Ny) (released s)),
       Nx_mem = Nx, Ny_mem = Ny\<rparr>,
      log (GlGetBinding (fst (glGenBuffers (released s))))
        (snd (allocateCudaGlBuffer (3 * Nx * Ny) (released s))))"
  by (simp add: draw_realloc_unfold Let_def released_def allocateCudaGlBuffer_facts)

lemma draw_realloc_bound:
  assumes "next_ok (gl_data_ok (snd s))" and "next_ok (cuda_register_ok (snd s))"
  shows "bound (draw_realloc Nx Ny s)"
  using assms glGenBuffers_facts(1) [of "released s"]
  by (simp add: bound_def draw_realloc_released allocateCudaGlBuffer_facts released_facts)


lemma same_shape_refl: "same_shape rt rt"
  by (simp add: same_shape_def)

lemma same_shape_trans: "same_shape rt rt1 \<Longrightarrow> same_shape rt1 rt2 \<Longrightarrow> same_shape rt rt2"
  by (simp add: same_shape_def)

lemma same_shape_log: "same_shape rt (log e rt)"
  by (simp add: same_shape_def)

lemma Map_frame:
  "gl_unpack_binding (cudaGraphicsMapResources h rt) = gl_unpack_binding rt"
  "gl_data_ok (cudaGraphicsMapResources h rt) = gl_data_ok rt"
  "cuda_register_ok (cudaGraphicsMapResources h rt) = cuda_register_ok rt"
  by (simp_all add: cudaGraphicsMapResources_def log_def split: option.splits)

lemma Unmap_frame:
  "gl_unpack_binding (cudaGraphicsUnmapResources h rt) = gl_unpack_binding rt"
  "gl_data_ok (cudaGraphicsUnmapResources h rt) = gl_data_ok rt"
  "cuda_register_ok (cudaGraphicsUnmapResources h rt) = cuda_register_ok rt"
  by (simp_all add: cudaGraphicsUnmapResources_def log_def split: option.splits)

lemma Map_same_shape: "same_shape rt (cudaGraphicsMapResources h rt)"
  by (auto simp: same_shape_def Map_lookup_resource Map_frame split: option.splits)

lemma Unmap_same_shape: "same_shape rt (cudaGraphicsUnmapResources h rt)"
  by (auto simp: same_shape_def Unmap_lookup_resource Unmap_frame split: option.splits)

lemma GetMappedPointer_same_shape:
  "same_shape rt (snd (cudaGraphicsResourceGetMappedPointer h rt))"
  by (auto simp: same_shape_def cudaGraphicsResourceGetMappedPointer_def split: option.splits)

lemma device_write_frame:
  "gl_unpack_binding (device_write b i c rt) = gl_unpack_binding rt"
  "gl_data_ok (device_write b i c rt) = gl_data_ok rt"
  "cuda_register_ok (device_write b i c rt) = cuda_register_ok rt"
  by (simp_all add: device_write_def log_def split: option.splits)

lemma device_write_same_shape: "same_shape rt (device_write b i c rt)"
proof (cases "lookup_buffer rt b")
  case None
  then show ?thesis
    by (simp add: device_write_def same_shape_refl)
next
  case (Some fs)
  have "lookup_buffer (device_write b i c rt) b' =
      (if b' = b then Some (fs[3 * i := Some (red c), 3 * i + 1 := Some (green c),
          3 * i + 2 := Some (blue c)]) else lookup_buffer rt b')" for b'
    using Some by (auto simp: device_write_def lookup_buffer_def update_conv' split: if_splits)
  then show ?thesis
    using Some by (simp add: same_shape_def device_write_frame)
qed

lemma thrust_transform_same_shape:
  "same_shape rt (final (thrust_transform f x p i rt))"
proof (induction x arbitrary: i rt)
  case Nil
  then show ?case by (simp add: same_shape_refl)
next
  case (Cons v vs)
  show ?case
    using Cons.IH [where i = "Suc i" and rt = "device_write (fst (the p)) i (f v) rt"]
      device_write_same_shape [of rt "fst (the p)" i "f v"]
    by (auto simp: same_shape_refl split: option.splits intro: same_shape_trans)
qed

lemma mapColors_same_shape: "same_shape rt (final (mapColors debug f x h rt))"
proof -
  define rt1 where "rt1 = cudaGraphicsMapResources h rt"
  define p where "p = fst (cudaGraphicsResourceGetMappedPointer h rt1)"
  define rt2 where "rt2 = snd (cudaGraphicsResourceGetMappedPointer h rt1)"
  define rt3 where "rt3 = final (thrust_transform f x p 0 rt2)"
  have 2: "same_shape rt rt2"
    unfolding rt2_def rt1_def using Map_same_shape GetMappedPointer_same_shape
    by (blast intro: same_shape_trans)
  have 3: "same_shape rt rt3"
    unfolding rt3_def using 2 thrust_transform_same_shape by (blast intro: same_shape_trans)
  have 4: "same_shape rt (cudaGraphicsUnmapResources h (cudaThreadSynchronize rt3))"
    using 3 same_shape_log [of rt3 CudaThreadSynchronize] Unmap_same_shape
    unfolding cudaThreadSynchronize_def by (blast intro: same_shape_trans)
  show ?thesis
    using 2 3 4
    by (auto simp: mapColors_unfold Let_def rt1_def [symmetric] p_def [symmetric]
        rt2_def [symmetric] rt3_def split: sum.splits)
qed

lemma present_same_shape: "same_shape rt (glfwSwapBuffers (glQuad (glTexImage2D Nx Ny rt)))"
  unfolding glfwSwapBuffers_def glQuad_def glTexImage2D_def
  using same_shape_log by (blast intro: same_shape_trans)

lemma draw_prepared:
  "draw debug f x Nx Ny s =
     (case mapColors debug f x (resource (fst (prepared Nx Ny s))) (snd (prepared Nx Ny s)) of
        Inl (e, rt2) \<Rightarrow> Inl (e, fst (prepared Nx Ny s), rt2)
      | Inr rt2 \<Rightarrow>
          Inr (fst (prepared Nx Ny s), glfwSwapBuffers (glQuad (glTexImage2D Nx Ny rt2))))"
  by (simp only: draw_unfold prepared_def Let_def)

lemma prepared_dims:
  "Nx_mem (fst (prepared Nx Ny s)) = Nx" "Ny_mem (fst (prepared Nx Ny s)) = Ny"
  by (auto simp: prepared_def draw_realloc_dims)

lemma draw_same_shape:
  "same_shape (snd (prepared Nx Ny s)) (snd (final (draw debug f x Nx Ny s)))"
proof (cases "mapColors debug f x (resource (fst (prepared Nx Ny s))) (snd (prepared Nx Ny s))")
  case (Inl a)
  then show ?thesis
    using mapColors_same_shape [of "snd (prepared Nx Ny s)" debug f x
        "resource (fst (prepared Nx Ny s))"]
    by (cases a) (simp add: draw_prepared)
next
  case (Inr rt2)
  then have "same_shape (snd (prepared Nx Ny s)) rt2"
    using mapColors_same_shape [of "snd (prepared Nx Ny s)" debug f x
        "resource (fst (prepared Nx Ny s))"]
    by simp
  then have "same_shape (snd (prepared Nx Ny s))
      (glfwSwapBuffers (glQuad (glTexImage2D Nx Ny rt2)))"
    using present_same_shape by (rule same_shape_trans)
  then show ?thesis
    using Inr by (simp add: draw_prepared)
qed

lemma draw_fst: "fst (final (draw debug f x Nx Ny s)) = fst (prepared Nx Ny s)"
  by (simp add: draw_prepared split: sum.splits)

lemma bound_same_shape:
  assumes "bound (w, rt)" and "same_shape rt rt'"
  shows "bound (w, rt')"
proof -
  from assms(1) obtain b m fs where
    r: "lookup_resource rt (resource w) = Some (b, m)" and
    b: "b = bufferID w" "gl_unpack_binding rt = b" and
    f: "lookup_buffer rt b = Some fs" "length fs = unat (3 * Nx_mem w * Ny_mem w)"
    by (auto simp: bound_def split: option.splits)
  from assms(2) have
    "map_option fst (lookup_resource rt' (resource w)) = map_option fst (lookup_resource rt (resource w))"
    "map_option length (lookup_buffer rt' b) = map_option length (lookup_buffer rt b)"
    "gl_unpack_binding rt' = gl_unpack_binding rt"
    by (simp_all add: same_shape_def)
  then show ?thesis
    using r b f by (auto simp: bound_def)
qed

lemma draw_bound:
  assumes "bound (prepared Nx Ny s)"
  shows "bound (final (draw debug f x Nx Ny s))"
  using bound_same_shape [of "fst (prepared Nx Ny s)" "snd (prepared Nx Ny s)"
      "snd (final (draw debug f x Nx Ny s))"] assms draw_same_shape [of Nx Ny s debug f x]
    draw_fst [of debug f x Nx Ny s]
  by (metis prod.collapse)

section \<open>The size check of a debug build\<close>

lemma unat_3_mult:
  fixes Nx Ny :: "32 word"
  shows "unat (3 * Nx * Ny) = (3 * unat Nx * unat Ny) mod 2 ^ 32"
proof -
  have "unat (3 * Nx * Ny) = unat (3 * Nx) * unat Ny mod 2 ^ 32"
    by (simp add: unat_word_ariths)
  also have "unat (3 * Nx) = 3 * unat Nx mod 2 ^ 32"
    by (simp add: unat_word_ariths)
  finally show ?thesis
    by (simp add: mod_mult_left_eq)
qed

lemma thrust_transform_error:
  "thrust_transform f x p i rt = Inl (e, rt') \<Longrightarrow> e = WildWrite \<or> e = OutOfBoundsWrite"
  by (induction x arbitrary: i rt) (auto split: option.splits if_splits)

lemma mapColors_error:
  assumes "mapColors debug f x h rt = Inl (e, rt')"
  shows "e = WildWrite \<or> e = OutOfBoundsWrite \<or>
    debug \<and> (e = IndeterminateRead \<or> e = AssertionFailed)"
  using assms thrust_transform_error
  by (fastforce simp: mapColors_unfold Let_def split: if_splits sum.splits)

lemma mapColors_assertion:
  assumes reg: "lookup_resource rt h = Some (b, m)" and buf: "lookup_buffer rt b = Some fs"
  shows "(\<exists>rt'. mapColors True f x h rt = Inl (AssertionFailed, rt')) \<longleftrightarrow>
    length x \<noteq> length fs div 3"
proof -
  define rt1 where "rt1 = cudaGraphicsMapResources h rt"
  define p where "p = fst (cudaGraphicsResourceGetMappedPointer h rt1)"
  define rt2 where "rt2 = snd (cudaGraphicsResourceGetMappedPointer h rt1)"
  have "lookup_resource rt1 h = Some (b, True)"
    by (simp add: rt1_def Map_lookup_resource reg buf)
  then have p: "p = Some (b, 4 * length fs)"
    by (simp add: p_def GetMappedPointer_fst) (simp add: rt1_def buf)
  have d: "4 * length fs div 3 div 4 = length fs div 3"
    by presburger
  have m: "mapColors True f x h rt =
      (if length x \<noteq> length fs div 3 then Inl (AssertionFailed, rt2)
       else (case thrust_transform f x p 0 rt2 of
               Inl e \<Rightarrow> Inl e
             | Inr rt3 \<Rightarrow> Inr (cudaGraphicsUnmapResources h (cudaThreadSynchronize rt3))))"
    by (simp add: mapColors_unfold Let_def rt1_def [symmetric] p_def [symmetric]
        rt2_def [symmetric]) (simp add: p d)
  show ?thesis
  proof (cases "length x \<noteq> length fs div 3")
    case True
    then show ?thesis by (simp add: m)
  next
    case False
    then show ?thesis
      using thrust_transform_error [of f x p 0 rt2]
      by (auto simp: m split: sum.splits)
  qed
qed

lemma draw_Inl:
  "draw debug f x Nx Ny s = Inl (e, s') \<longleftrightarrow>
     mapColors debug f x (resource (fst (prepared Nx Ny s))) (snd (prepared Nx Ny s)) =
       Inl (e, snd s') \<and> fst s' = fst (prepared Nx Ny s)"
  by (cases s') (auto simp: draw_prepared split: sum.splits)

text \<open>
  C8, as amended.  In a debug build the assertion of \<^verbatim>\<open>mapColors\<close> compares the element
  count of the field with the byte size of the mapped buffer divided by 3 and by
  \<^verbatim>\<open>sizeof(float)\<close>.  In a \<^verbatim>\<open>draw\<close> whose window is bound for the dimensions of the call
  when \<^verbatim>\<open>mapColors\<close> starts, it fires exactly when the count differs from \<^verbatim>\<open>3*Nx*Ny\<close>
  (in \<^verbatim>\<open>unsigned\<close> arithmetic) divided by 3, which is \<open>Nx \<times> Ny\<close> when \<^verbatim>\<open>3*Nx*Ny\<close> does not
  overflow.  A release build never fails this check.
\<close>

theorem debug_size_check:
  assumes "bound (prepared Nx Ny s)"
  shows "((\<exists>s'. draw True f x Nx Ny s = Inl (AssertionFailed, s')) \<longleftrightarrow>
            length x \<noteq> unat (3 * Nx * Ny) div 3) \<and>
         (\<forall>s'. draw False f x Nx Ny s \<noteq> Inl (AssertionFailed, s')) \<and>
         (3 * unat Nx * unat Ny < 2 ^ 32 \<longrightarrow> unat (3 * Nx * Ny) div 3 = unat Nx * unat Ny)"
proof -
  let ?s1 = "prepared Nx Ny s"
  from assms obtain b m fs where
    reg: "lookup_resource (snd ?s1) (resource (fst ?s1)) = Some (b, m)" and
    buf: "lookup_buffer (snd ?s1) b = Some fs" and
    len: "length fs = unat (3 * Nx * Ny)"
    by (auto simp: bound_def prepared_dims split: option.splits)
  have "(\<exists>s'. draw True f x Nx Ny s = Inl (AssertionFailed, s')) \<longleftrightarrow>
      (\<exists>rt'. mapColors True f x (resource (fst ?s1)) (snd ?s1) = Inl (AssertionFailed, rt'))"
    by (auto simp: draw_Inl)
  then have 1: "(\<exists>s'. draw True f x Nx Ny s = Inl (AssertionFailed, s')) \<longleftrightarrow>
      length x \<noteq> unat (3 * Nx * Ny) div 3"
    using mapColors_assertion [OF reg buf, of f x] len by simp
  have 2: "draw False f x Nx Ny s \<noteq> Inl (AssertionFailed, s')" for s'
    using mapColors_error [of False f x "resource (fst ?s1)" "snd ?s1" AssertionFailed "snd s'"]
    by (auto simp: draw_Inl)
  have 3: "unat (3 * Nx * Ny) div 3 = unat Nx * unat Ny" if "3 * unat Nx * unat Ny < 2 ^ 32"
    using that by (simp add: unat_3_mult)
  show ?thesis
    using 1 2 3 by blast
qed

text \<open>
  The claim as stated compares with \<open>3 \<times> width \<times> height\<close>.  On a 1 by 1 window a field
  of one element (and \<open>1 \<noteq> 3\<close>) passes the check of a debug build, and a field of three
  elements fails it.
\<close>

theorem debug_size_check_counterexample:
  "length [10::nat] \<noteq> unat (3 * 1 * 1 :: unsigned) \<and>
   draw True gray [10] 1 1 booted = Inr drawn_1x1 \<and>
   length [10, 20, 30::nat] = unat (3 * 1 * 1 :: unsigned) \<and>
   (\<exists>s'. draw True gray [10, 20, 30] 1 1 booted = Inl (AssertionFailed, s'))"
proof -
  have "draw True gray [10] 1 1 booted = Inr drawn_1x1"
    by (simp add: drawn_1x1_value) (simp add: booted_value example_defs)
  moreover have "\<exists>s'. draw True gray [10, 20, 30] 1 1 booted = Inl (AssertionFailed, s')"
    by (simp add: booted_value example_defs)
  ultimately show ?thesis
    by simp
qed

lemma prepared_booted_bound: "bound (prepared 1 1 booted)"
  by (simp add: bound_def prepared_def booted_value example_defs)

theorem debug_size_check_witness:
  "bound (prepared 1 1 booted) \<and>
   (\<exists>s'. draw True gray [10, 20, 30] 1 1 booted = Inl (AssertionFailed, s')) \<and>
   length [10, 20, 30::nat] \<noteq> unat (3 * 1 * 1 :: unsigned) div 3 \<and>
   unat (3 * 1 * 1 :: unsigned) div 3 = unat (1 :: unsigned) * unat (1 :: unsigned)"
  using debug_size_check [OF prepared_booted_bound, of gray "[10, 20, 30]"]
    prepared_booted_bound
  by simp

section \<open>Failures of the allocator\<close>

text \<open>
  C6, as amended.  \<^verbatim>\<open>allocateCudaGlBuffer\<close> reports a failure (it prints the error string
  of the compute runtime and returns \<^verbatim>\<open>NULL\<close>) exactly when the cross-runtime registration
  reports an error; whether the graphics buffer got its data store is not checked.  On a
  failed registration the graphics buffer that was created exists and is the buffer bound
  to the pixel-unpack target, which is how the caller can find it, and deleting it there
  releases it.
\<close>

theorem allocateCudaGlBuffer_failure:
  assumes "a = allocateCudaGlBuffer N rt" and "b = gl_unpack_binding (snd a)"
  shows "(fst a = NULL \<longleftrightarrow> \<not> next_ok (cuda_register_ok rt)) \<and>
         (fst a = NULL \<longrightarrow>
            last (trace (snd a)) = StdCoutCudaErrorString \<and>
            b \<noteq> 0 \<and> b = fst (glGenBuffers rt) \<and>
            lookup_buffer (snd a) b \<noteq> None \<and>
            lookup_buffer (glDeleteBuffers b (snd a)) b = None)"
  using glGenBuffers_facts(1) [of rt]
  by (simp add: assms allocateCudaGlBuffer_NULL allocateCudaGlBuffer_facts glDeleteBuffers_facts)

text \<open>
  A graphics runtime that finds no memory for the data store, with a registration that
  succeeds all the same: the allocator returns a handle, not \<^verbatim>\<open>NULL\<close>, and prints nothing.
\<close>

theorem allocateCudaGlBuffer_counterexample:
  "allocateCudaGlBuffer 3 refusing_memory =
     (1, \<lparr>gl_buffers = [(1, [])], gl_unpack_binding = 1, cuda_resources = [(1, 1, False)],
          gl_names = [], gl_data_ok = [], cuda_register_ok = [], cuda_ptrs = [],
          trace = [GlGenBuffers 1, GlBindBuffer 1, GlBufferData 12 False, CudaRegister 1 1]\<rparr>) \<and>
   fst (allocateCudaGlBuffer 3 refusing_memory) \<noteq> NULL"
  by (simp add: refusing_memory_def example_defs)

theorem allocateCudaGlBuffer_failure_witness:
  "allocateCudaGlBuffer 3 refusing_registration =
     (NULL, \<lparr>gl_buffers = [(1, [None, None, None])], gl_unpack_binding = 1,
          cuda_resources = [], gl_names = [], gl_data_ok = [], cuda_register_ok = [],
          cuda_ptrs = [],
          trace = [GlGenBuffers 1, GlBindBuffer 1, GlBufferData 12 True, CudaRegister 1 NULL,
            StdCoutCudaErrorString]\<rparr>) \<and>
   lookup_buffer (snd (allocateCudaGlBuffer 3 refusing_registration)) 1 \<noteq> None \<and>
   lookup_buffer (glDeleteBuffers 1 (snd (allocateCudaGlBuffer 3 refusing_registration))) 1 = None"
proof -
  have v: "allocateCudaGlBuffer 3 refusing_registration =
     (NULL, \<lparr>gl_buffers = [(1, [None, None, None])], gl_unpack_binding = 1,
          cuda_resources = [], gl_names = [], gl_data_ok = [], cuda_register_ok = [],
          cuda_ptrs = [],
          trace = [GlGenBuffers 1, GlBindBuffer 1, GlBufferData 12 True, CudaRegister 1 NULL,
            StdCoutCudaErrorString]\<rparr>)"
    by (simp add: refusing_registration_def example_defs)
  have b: "gl_unpack_binding (snd (allocateCudaGlBuffer 3 refusing_registration)) = 1"
    by (simp add: v)
  have n: "fst (allocateCudaGlBuffer 3 refusing_registration) = NULL"
    by (simp add: v)
  from allocateCudaGlBuffer_failure [OF refl b [symmetric]] n
  have "lookup_buffer (snd (allocateCudaGlBuffer 3 refusing_registration)) 1 \<noteq> None"
    and "lookup_buffer (glDeleteBuffers 1 (snd (allocateCudaGlBuffer 3 refusing_registration))) 1
      = None"
    by blast+
  with v show ?thesis
    by blast
qed

section \<open>A draw whose registration fails\<close>



lemma mapColors_prefix:
  "\<exists>evs. trace (final (mapColors debug f x h rt)) = trace rt @ evs"
  using owned_runD [OF mapColors_owned [of h rt debug f x]] by blast












section \<open>The dimension-change branch\<close>

lemma draw_prefix_prepared:
  "\<exists>evs. trace (snd (final (draw debug f x Nx Ny s))) = trace (snd (prepared Nx Ny s)) @ evs"
proof (cases "mapColors debug f x (resource (fst (prepared Nx Ny s))) (snd (prepared Nx Ny s))")
  case (Inl a)
  then show ?thesis
    using mapColors_prefix [of debug f x "resource (fst (prepared Nx Ny s))"
        "snd (prepared Nx Ny s)"]
    by (cases a) (simp add: draw_prepared)
next
  case (Inr rt2)
  then show ?thesis
    using mapColors_prefix [of debug f x "resource (fst (prepared Nx Ny s))"
        "snd (prepared Nx Ny s)"]
    by (auto simp: draw_prepared glfwSwapBuffers_def glQuad_def glTexImage2D_def)
qed

lemma draw_realloc_trace:
  "\<exists>evs. trace (snd (draw_realloc Nx Ny s)) =
     trace (snd s) @
       [CudaUnregister (resource (fst s)) (lookup_resource (snd s) (resource (fst s)) \<noteq> None),
        StdCout ''Allocate resources for drawing!\<newline>'',
        GlGetBinding (gl_unpack_binding (snd s)), GlDeleteBuffers (gl_unpack_binding (snd s)),
        GlGenBuffers (bufferID (fst (draw_realloc Nx Ny s))),
        GlBindBuffer (bufferID (fst (draw_realloc Nx Ny s))),
        GlBufferData (unat (3 * Nx * Ny) * 4) (next_ok (gl_data_ok (snd s))),
        CudaRegister (bufferID (fst (draw_realloc Nx Ny s)))
          (resource (fst (draw_realloc Nx Ny s)))] @ evs"
  by (simp add: draw_realloc_released allocateCudaGlBuffer_facts released_facts)

lemma draw_realloc_lookup_resource:
  "lookup_resource (snd (draw_realloc Nx Ny s)) h =
     (if next_ok (cuda_register_ok (snd s)) \<and> h = resource (fst (draw_realloc Nx Ny s))
      then Some (bufferID (fst (draw_realloc Nx Ny s)), False)
      else if h = resource (fst s) then None else lookup_resource (snd s) h)"
  by (simp add: draw_realloc_released allocateCudaGlBuffer_facts released_facts)

lemma draw_realloc_lookup_buffer:
  "lookup_buffer (snd (draw_realloc Nx Ny s)) b =
     (if b = bufferID (fst (draw_realloc Nx Ny s))
      then Some (if next_ok (gl_data_ok (snd s)) then replicate (unat (3 * Nx * Ny)) None else [])
      else if b = gl_unpack_binding (snd s) then None else lookup_buffer (snd s) b)"
  by (simp add: draw_realloc_released allocateCudaGlBuffer_facts released_facts)

lemma draw_realloc_handles:
  "bufferID (fst (draw_realloc Nx Ny s)) \<noteq> 0"
  "resource (fst (draw_realloc Nx Ny s)) = NULL \<longleftrightarrow> \<not> next_ok (cuda_register_ok (snd s))"
  "lookup_resource (released s) (resource (fst (draw_realloc Nx Ny s))) = None"
  using glGenBuffers_facts(1) [of "released s"]
    allocateCudaGlBuffer_NULL [of "3 * Nx * Ny" "released s"]
    allocateCudaGlBuffer_fresh [of "released s" "3 * Nx * Ny"]
  by (simp_all add: draw_realloc_released released_facts)

lemma same_shape_registered:
  "same_shape rt rt' \<Longrightarrow> lookup_resource rt' h = None \<longleftrightarrow> lookup_resource rt h = None"
  by (metis same_shape_def option.map_disc_iff)

lemma same_shape_buffer:
  "same_shape rt rt' \<Longrightarrow> lookup_buffer rt' b = None \<longleftrightarrow> lookup_buffer rt b = None"
  by (metis same_shape_def option.map_disc_iff)

text \<open>
  C5, as amended.  The first \<^verbatim>\<open>draw\<close> after construction, with dimensions other than
  \<open>(0,0)\<close>, runs the allocator for \<^verbatim>\<open>3*Nx*Ny\<close> elements: a new graphics buffer is
  generated, bound and given a data store of that many floats, and its registration is
  requested.  The handle of the window is that registration, a handle that was not
  registered before, or \<^verbatim>\<open>NULL\<close> exactly when the registration is refused; unless a
  runtime refuses, the window ends bound for \<open>(Nx,Ny)\<close>.  The teardown calls before the
  allocation are issued on the \<^verbatim>\<open>NULL\<close> handle and on buffer name \<open>0\<close> and release nothing:
  no buffer exists, and every registration of the process is still there afterwards.
\<close>

theorem first_draw_allocates:
  assumes "s = DeviceWindow_ctor width height rt" and "Nx \<noteq> 0 \<or> Ny \<noteq> 0"
    and "s' = final (draw debug f x Nx Ny s)"
  shows "(\<exists>evs. new_events (snd s) (snd s') =
            [CudaUnregister NULL False, StdCout ''Allocate resources for drawing!\<newline>'',
             GlGetBinding 0, GlDeleteBuffers 0,
             GlGenBuffers (bufferID (fst s')), GlBindBuffer (bufferID (fst s')),
             GlBufferData (unat (3 * Nx * Ny) * 4) (next_ok (gl_data_ok rt)),
             CudaRegister (bufferID (fst s')) (resource (fst s'))] @ evs) \<and>
         bufferID (fst s') \<noteq> 0 \<and> gl_buffers (snd s) = [] \<and>
         (\<forall>h. lookup_resource (snd s) h \<noteq> None \<longrightarrow> lookup_resource (snd s') h \<noteq> None) \<and>
         lookup_resource (snd s) (resource (fst s')) = None \<and>
         (resource (fst s') = NULL \<longleftrightarrow> \<not> next_ok (cuda_register_ok rt)) \<and>
         (next_ok (gl_data_ok rt) \<and> next_ok (cuda_register_ok rt) \<longrightarrow> bound s')"
proof -
  have w: "resource (fst s) = NULL" "Nx_mem (fst s) = 0" "Ny_mem (fst s) = 0"
    and g: "gl_buffers (snd s) = []" "gl_unpack_binding (snd s) = 0"
    and o: "gl_data_ok (snd s) = gl_data_ok rt" "cuda_register_ok (snd s) = cuda_register_ok rt"
    by (simp_all add: assms(1) DeviceWindow_ctor_def cudaGlfwInit_def)
  have p: "prepared Nx Ny s = draw_realloc Nx Ny s"
    using assms(2) w by (auto simp: prepared_def)
  have f: "fst s' = fst (draw_realloc Nx Ny s)"
    by (simp add: assms(3) draw_fst p)
  have sh: "same_shape (snd (draw_realloc Nx Ny s)) (snd s')"
    using draw_same_shape [of Nx Ny s debug f x] by (simp add: assms(3) p)
  have n: "lookup_resource (snd s) NULL = None"
    by (simp add: lookup_resource_def)
  obtain e1 where "trace (snd s') = trace (snd (draw_realloc Nx Ny s)) @ e1"
    using draw_prefix_prepared [of debug f x Nx Ny s] by (auto simp: assms(3) p)
  moreover obtain e2 where "trace (snd (draw_realloc Nx Ny s)) =
     trace (snd s) @
       [CudaUnregister NULL False, StdCout ''Allocate resources for drawing!\<newline>'',
        GlGetBinding 0, GlDeleteBuffers 0,
        GlGenBuffers (bufferID (fst s')), GlBindBuffer (bufferID (fst s')),
        GlBufferData (unat (3 * Nx * Ny) * 4) (next_ok (gl_data_ok rt)),
        CudaRegister (bufferID (fst s')) (resource (fst s'))] @ e2"
    using draw_realloc_trace [of Nx Ny s] by (auto simp: w g o n f)
  ultimately have 1: "\<exists>evs. new_events (snd s) (snd s') =
            [CudaUnregister NULL False, StdCout ''Allocate resources for drawing!\<newline>'',
             GlGetBinding 0, GlDeleteBuffers 0,
             GlGenBuffers (bufferID (fst s')), GlBindBuffer (bufferID (fst s')),
             GlBufferData (unat (3 * Nx * Ny) * 4) (next_ok (gl_data_ok rt)),
             CudaRegister (bufferID (fst s')) (resource (fst s'))] @ evs"
    by (simp add: new_events_def)
  have 2: "bufferID (fst s') \<noteq> 0"
    by (simp add: f draw_realloc_handles)
  have 3: "lookup_resource (snd s') h \<noteq> None" if "lookup_resource (snd s) h \<noteq> None" for h
  proof -
    have "h \<noteq> NULL"
      using that n by (cases "h = NULL") simp_all
    then have "lookup_resource (snd (draw_realloc Nx Ny s)) h \<noteq> None"
      using that by (auto simp: draw_realloc_lookup_resource w)
    then show ?thesis
      using same_shape_registered [OF sh] by simp
  qed
  have 4: "lookup_resource (snd s) (resource (fst s')) = None"
    using draw_realloc_handles(3) [of s Nx Ny] n
    by (simp add: f released_facts w split: if_splits)
  have 5: "resource (fst s') = NULL \<longleftrightarrow> \<not> next_ok (cuda_register_ok rt)"
    by (simp add: f draw_realloc_handles o)
  have 6: "bound s'" if "next_ok (gl_data_ok rt) \<and> next_ok (cuda_register_ok rt)"
  proof -
    have "bound (prepared Nx Ny s)"
      unfolding p using that by (intro draw_realloc_bound) (simp_all add: o)
    then show ?thesis
      unfolding assms(3) by (rule draw_bound)
  qed
  show ?thesis
    using 1 2 g(1) 3 4 5 6 by blast
qed

text \<open>
  C3, as amended.  From a state \<open>Bound(w0,h0)\<close>, a \<^verbatim>\<open>draw\<close> with other dimensions first
  unregisters the old registration and deletes the old graphics buffer (the buffer bound
  to the pixel-unpack target), and only then generates the new buffer: when the allocator
  starts, neither old name is live.  On every exit, also when the allocation fails or the
  transform faults, an old name is live afterwards only as the handle the window now
  holds, handed out again by the runtime.  That the new handles differ from the old ones
  is not promised.
\<close>

theorem resize_releases_before_allocating:
  assumes "bound s" and "Nx \<noteq> Nx_mem (fst s) \<or> Ny \<noteq> Ny_mem (fst s)"
    and "s' = final (draw debug f x Nx Ny s)"
  shows "(\<exists>evs. new_events (snd s) (snd s') =
            [CudaUnregister (resource (fst s)) True, StdCout ''Allocate resources for drawing!\<newline>'',
             GlGetBinding (bufferID (fst s)), GlDeleteBuffers (bufferID (fst s)),
             GlGenBuffers (bufferID (fst s'))] @ evs) \<and>
         lookup_resource (released s) (resource (fst s)) = None \<and>
         lookup_buffer (released s) (bufferID (fst s)) = None \<and>
         snd (draw_realloc Nx Ny s) =
           log (GlGetBinding (bufferID (fst s')))
             (snd (allocateCudaGlBuffer (3 * Nx * Ny) (released s))) \<and>
         (lookup_resource (snd s') (resource (fst s)) \<noteq> None \<longrightarrow>
            resource (fst s') = resource (fst s)) \<and>
         (lookup_buffer (snd s') (bufferID (fst s)) \<noteq> None \<longrightarrow>
            bufferID (fst s') = bufferID (fst s))"
proof -
  from assms(1) have reg: "lookup_resource (snd s) (resource (fst s)) \<noteq> None"
    and bind: "gl_unpack_binding (snd s) = bufferID (fst s)"
    by (auto simp: bound_def split: option.splits)
  have p: "prepared Nx Ny s = draw_realloc Nx Ny s"
    using assms(2) by (auto simp: prepared_def)
  have f: "fst s' = fst (draw_realloc Nx Ny s)"
    by (simp add: assms(3) draw_fst p)
  have sh: "same_shape (snd (draw_realloc Nx Ny s)) (snd s')"
    using draw_same_shape [of Nx Ny s debug f x] by (simp add: assms(3) p)
  obtain e1 where "trace (snd s') = trace (snd (draw_realloc Nx Ny s)) @ e1"
    using draw_prefix_prepared [of debug f x Nx Ny s] by (auto simp: assms(3) p)
  moreover obtain e2 where "trace (snd (draw_realloc Nx Ny s)) =
     trace (snd s) @
       [CudaUnregister (resource (fst s)) True, StdCout ''Allocate resources for drawing!\<newline>'',
        GlGetBinding (bufferID (fst s)), GlDeleteBuffers (bufferID (fst s)),
        GlGenBuffers (bufferID (fst s'))] @ e2"
    using draw_realloc_trace [of Nx Ny s] reg by (auto simp: bind f)
  ultimately have 1: "\<exists>evs. new_events (snd s) (snd s') =
            [CudaUnregister (resource (fst s)) True, StdCout ''Allocate resources for drawing!\<newline>'',
             GlGetBinding (bufferID (fst s)), GlDeleteBuffers (bufferID (fst s)),
             GlGenBuffers (bufferID (fst s'))] @ evs"
    by (simp add: new_events_def)
  have 2: "lookup_resource (released s) (resource (fst s)) = None"
    "lookup_buffer (released s) (bufferID (fst s)) = None"
    by (simp_all add: released_facts bind)
  have 3: "snd (draw_realloc Nx Ny s) =
           log (GlGetBinding (bufferID (fst s')))
             (snd (allocateCudaGlBuffer (3 * Nx * Ny) (released s)))"
    by (simp add: f draw_realloc_released)
  have 4: "resource (fst s') = resource (fst s)"
    if "lookup_resource (snd s') (resource (fst s)) \<noteq> None"
  proof -
    have "lookup_resource (snd (draw_realloc Nx Ny s)) (resource (fst s)) \<noteq> None"
      using that same_shape_registered [OF sh] by simp
    then show ?thesis
      by (simp add: draw_realloc_lookup_resource f split: if_splits)
  qed
  have 5: "bufferID (fst s') = bufferID (fst s)"
    if "lookup_buffer (snd s') (bufferID (fst s)) \<noteq> None"
  proof -
    have "lookup_buffer (snd (draw_realloc Nx Ny s)) (bufferID (fst s)) \<noteq> None"
      using that same_shape_buffer [OF sh] by simp
    then show ?thesis
      by (simp add: draw_realloc_lookup_buffer f bind split: if_splits)
  qed
  show ?thesis
    using 1 2 3 4 5 by blast
qed

section \<open>The concrete runs of the branch\<close>

lemma drawn_0x0_value:
  "drawn_0x0 =
     (\<lparr>bufferID = 0, resource = NULL, Nx_mem = 0, Ny_mem = 0\<rparr>,
      \<lparr>gl_buffers = [], gl_unpack_binding = 0, cuda_resources = [], gl_names = [],
       gl_data_ok = [], cuda_register_ok = [], cuda_ptrs = [],
       trace = [GlfwOpenWindow 800 600, CudaMap NULL False, CudaGetMappedPointer NULL False,
         CudaThreadSynchronize, CudaUnmap NULL False, GlTexImage2D 0 0, GlQuad,
         GlfwSwapBuffers]\<rparr>)"
  by (simp add: drawn_0x0_def booted_value) (simp add: example_defs)

lemma drawn_0x0_returns: "draw False gray [] 0 0 booted = Inr drawn_0x0"
  by (simp add: drawn_0x0_def booted_value) (simp add: example_defs)

text \<open>
  The claim as stated fails for the first \<^verbatim>\<open>draw\<close> with dimensions \<open>(0,0)\<close>: nothing is
  allocated, the window keeps the \<^verbatim>\<open>NULL\<close> handle and no buffer exists afterwards.
\<close>

theorem first_draw_allocates_counterexample:
  "draw False gray [] 0 0 booted = Inr drawn_0x0 \<and>
   resource (fst drawn_0x0) = NULL \<and> bufferID (fst drawn_0x0) = 0 \<and>
   gl_buffers (snd drawn_0x0) = [] \<and> cuda_resources (snd drawn_0x0) = [] \<and>
   new_events (snd booted) (snd drawn_0x0) =
     [CudaMap NULL False, CudaGetMappedPointer NULL False, CudaThreadSynchronize,
      CudaUnmap NULL False, GlTexImage2D 0 0, GlQuad, GlfwSwapBuffers]"
proof -
  have "new_events (snd booted) (snd drawn_0x0) =
     [CudaMap NULL False, CudaGetMappedPointer NULL False, CudaThreadSynchronize,
      CudaUnmap NULL False, GlTexImage2D 0 0, GlQuad, GlfwSwapBuffers]"
    by (simp add: booted_value drawn_0x0_value new_events_def)
  then show ?thesis
    using drawn_0x0_returns by (simp add: drawn_0x0_value)
qed

lemma drawn_1x1_bound: "bound drawn_1x1"
  by (simp add: drawn_1x1_value bound_def lookup_resource_def lookup_buffer_def)

theorem first_draw_allocates_witness:
  "booted = DeviceWindow_ctor 800 600 fresh_process \<and>
   draw False gray [10] 1 1 booted = Inr drawn_1x1 \<and>
   (\<exists>evs. new_events (snd booted) (snd drawn_1x1) =
      [CudaUnregister NULL False, StdCout ''Allocate resources for drawing!\<newline>'',
       GlGetBinding 0, GlDeleteBuffers 0, GlGenBuffers 1, GlBindBuffer 1,
       GlBufferData 12 True, CudaRegister 1 1] @ evs) \<and>
   resource (fst drawn_1x1) = 1 \<and> bufferID (fst drawn_1x1) = 1 \<and> bound drawn_1x1"
proof -
  have d: "(1::unsigned) \<noteq> 0 \<or> (1::unsigned) \<noteq> 0"
    by simp
  note t = first_draw_allocates [OF booted_def d drawn_1x1_def]
  have v: "resource (fst drawn_1x1) = 1" "bufferID (fst drawn_1x1) = 1"
    "next_ok (gl_data_ok fresh_process)" "next_ok (cuda_register_ok fresh_process)"
    "unat (3 * 1 * 1 :: unsigned) * 4 = 12"
    by (simp_all add: drawn_1x1_value fresh_process_def)
  from t have "\<exists>evs. new_events (snd booted) (snd drawn_1x1) =
      [CudaUnregister NULL False, StdCout ''Allocate resources for drawing!\<newline>'',
       GlGetBinding 0, GlDeleteBuffers 0, GlGenBuffers 1, GlBindBuffer 1,
       GlBufferData 12 True, CudaRegister 1 1] @ evs"
    using v(3) unfolding v(1,2,5) by simp
  moreover from t v have "bound drawn_1x1"
    by blast
  ultimately show ?thesis
    using booted_def drawn_1x1_returns v(1,2) by blast
qed

lemma drawn_2x1_value:
  "drawn_2x1 =
     (\<lparr>bufferID = 1, resource = 1, Nx_mem = 2, Ny_mem = 1\<rparr>,
      \<lparr>gl_buffers = [(1, [Some 10, Some 11, Some 12, Some 20, Some 21, Some 22])],
       gl_unpack_binding = 1, cuda_resources = [(1, 1, False)], gl_names = [],
       gl_data_ok = [], cuda_register_ok = [], cuda_ptrs = [],
       trace = trace (snd drawn_1x1) @
         [CudaUnregister 1 True, StdCout ''Allocate resources for drawing!\<newline>'', GlGetBinding 1,
          GlDeleteBuffers 1, GlGenBuffers 1, GlBindBuffer 1, GlBufferData 24 True,
          CudaRegister 1 1, GlGetBinding 1, CudaMap 1 True, CudaGetMappedPointer 1 True,
          DeviceWrite 1 0, DeviceWrite 1 1, CudaThreadSynchronize, CudaUnmap 1 True,
          GlTexImage2D 2 1, GlQuad, GlfwSwapBuffers]\<rparr>)"
  by (simp add: drawn_2x1_def drawn_1x1_value) (simp add: example_defs)

lemma drawn_2x1_returns: "draw False gray [10, 20] 2 1 drawn_1x1 = Inr drawn_2x1"
  by (simp add: drawn_2x1_def drawn_1x1_value) (simp add: example_defs)

text \<open>
  The claim as stated asks for a new handle distinct from the old one.  A runtime may
  hand out a released name again: resizing the one-pixel window to two pixels gives the
  window the registration handle and the buffer name it had before.
\<close>

theorem resize_releases_before_allocating_counterexample:
  "bound drawn_1x1 \<and> Nx_mem (fst drawn_1x1) = 1 \<and> Ny_mem (fst drawn_1x1) = 1 \<and>
   draw False gray [10, 20] 2 1 drawn_1x1 = Inr drawn_2x1 \<and>
   resource (fst drawn_2x1) = resource (fst drawn_1x1) \<and>
   bufferID (fst drawn_2x1) = bufferID (fst drawn_1x1)"
  using drawn_1x1_bound drawn_2x1_returns
  by (simp add: drawn_2x1_value) (simp add: drawn_1x1_value)

theorem resize_releases_before_allocating_witness:
  "bound drawn_1x1 \<and> draw False gray [10, 20] 2 1 drawn_1x1 = Inr drawn_2x1 \<and>
   (\<exists>evs. new_events (snd drawn_1x1) (snd drawn_2x1) =
      [CudaUnregister 1 True, StdCout ''Allocate resources for drawing!\<newline>'', GlGetBinding 1,
       GlDeleteBuffers 1, GlGenBuffers 1] @ evs) \<and>
   lookup_resource (released drawn_1x1) 1 = None \<and>
   lookup_buffer (released drawn_1x1) 1 = None"
proof -
  have d: "2 \<noteq> Nx_mem (fst drawn_1x1) \<or> 1 \<noteq> Ny_mem (fst drawn_1x1)"
    by (simp add: drawn_1x1_value)
  note t = resize_releases_before_allocating [OF drawn_1x1_bound d drawn_2x1_def]
  have v: "resource (fst drawn_1x1) = 1" "bufferID (fst drawn_1x1) = 1"
    "bufferID (fst drawn_2x1) = 1"
    by (simp_all add: drawn_1x1_value drawn_2x1_value)
  from t have "(\<exists>evs. new_events (snd drawn_1x1) (snd drawn_2x1) =
      [CudaUnregister 1 True, StdCout ''Allocate resources for drawing!\<newline>'', GlGetBinding 1,
       GlDeleteBuffers 1, GlGenBuffers 1] @ evs) \<and>
     lookup_resource (released drawn_1x1) 1 = None \<and>
     lookup_buffer (released drawn_1x1) 1 = None"
    unfolding v by blast
  then show ?thesis
    using drawn_1x1_bound drawn_2x1_returns by blast
qed

end
